theory Spec2Isabelle
  imports Main
begin

section \<open>Strings, JSON values and HTTP replies\<close>

text \<open>
  JavaScript strings are modelled as \<^typ>\<open>string\<close>; a \<^typ>\<open>char\<close> stands for one
  code unit below 256 (the Latin-1 range, which contains every character of an address,
  a token, an e-mail address accepted by the validators, or a post URL).
\<close>

definition lowerChar :: "char \<Rightarrow> char" where
  \<comment> \<open>\<open>String.prototype.toLowerCase\<close> on one code unit below 256: \<open>A\<close>-\<open>Z\<close> and the
      Latin-1 capitals \<open>0xC0\<close>-\<open>0xDE\<close> (without the sign \<open>0xD7\<close>) move up by 32, which
      sets the bit of weight 32 (it is clear in all of them).\<close>
  "lowerChar c =
     (let n = (of_char c :: nat)
      in if (65 \<le> n \<and> n \<le> 90) \<or> (192 \<le> n \<and> n \<le> 222 \<and> n \<noteq> 215)
         then (case c of Char b0 b1 b2 b3 b4 b5 b6 b7 \<Rightarrow> Char b0 b1 b2 b3 b4 True b6 b7)
         else c)"

definition toLowerCase :: "string \<Rightarrow> string" where
  "toLowerCase str = map lowerChar str"

definition isSpace :: "char \<Rightarrow> bool" where
  \<comment> \<open>the class \<open>\s\<close> of a JavaScript regular expression, and the characters
      \<open>String.prototype.trim\<close> strips, below 256\<close>
  "isSpace c = (let n = (of_char c :: nat) in (9 \<le> n \<and> n \<le> 13) \<or> n = 32 \<or> n = 160)"

definition trim :: "string \<Rightarrow> string" where
  "trim str = rev (dropWhile isSpace (rev (dropWhile isSpace str)))"

datatype json =
    JNull
  | JBool bool
  | JNum int
  | JStr string
  | JDate int
  | JArr "json list"
  | JObj "(string \<times> json) list"

text \<open>A reply is what \<open>res.status(code).json(body)\<close> sends.\<close>

type_synonym response = "nat \<times> json"

definition field :: "string \<Rightarrow> json \<Rightarrow> json option" where
  "field k j = (case j of JObj kvs \<Rightarrow> map_of kvs k | _ \<Rightarrow> None)"

section \<open>The waitlist entry and the document store\<close>

text \<open>
  An \<open>ObjectId\<close> is represented by its canonical string (what \<open>toString()\<close> gives), a
  \<open>Date\<close> by its milliseconds. \<open>null\<close> and an absent field are both \<open>None\<close>: no query of
  the program tells them apart (a query for a string value matches neither).
\<close>

type_synonym objectId = string
type_synonym date = int

record entry =
  oid :: objectId
  name :: string
  email :: string
  walletAddress :: "string option"
  roles :: "string list"
  note' :: "string option"
  xHandle :: "string option"
  emailVerified :: bool
  verificationToken :: "string option"
  posted :: bool
  postUrl :: "string option"
  status :: string
  createdAt :: date
  updatedAt :: date

text \<open>The collection, in natural (insertion) order.\<close>

type_synonym store = "entry list"

definition findOne :: "(entry \<Rightarrow> bool) \<Rightarrow> store \<Rightarrow> entry option" where
  "findOne q s = find q s"

fun updateOne :: "(entry \<Rightarrow> bool) \<Rightarrow> (entry \<Rightarrow> entry) \<Rightarrow> store \<Rightarrow> store" where
  "updateOne q u [] = []"
| "updateOne q u (d # ds) = (if q d then u d # ds else d # updateOne q u ds)"

definition findOneAndUpdate ::
  "(entry \<Rightarrow> bool) \<Rightarrow> (entry \<Rightarrow> entry) \<Rightarrow> store \<Rightarrow> entry option \<times> store" where
  \<comment> \<open>with \<open>{ new: true }\<close>: the updated document, or \<open>null\<close>\<close>
  "findOneAndUpdate q u s = (map_option u (find q s), updateOne q u s)"

definition countDocuments :: "(entry \<Rightarrow> bool) \<Rightarrow> store \<Rightarrow> int" where
  "countDocuments q s = int (length (filter q s))"

section \<open>Verification of an e-mail address\<close>

subsection \<open>Model and service (\<open>models/Waitlist\<close>, \<open>services/waitlistService\<close>)\<close>

definition Waitlist_findByVerificationToken :: "string \<Rightarrow> store \<Rightarrow> entry option" where
  "Waitlist_findByVerificationToken token s = findOne (\<lambda>d. verificationToken d = Some token) s"

definition WaitlistService_findByVerificationToken :: "string \<Rightarrow> store \<Rightarrow> entry option" where
  "WaitlistService_findByVerificationToken token s = Waitlist_findByVerificationToken token s"

definition WaitlistService_verifyEmail :: "date \<Rightarrow> string \<Rightarrow> store \<Rightarrow> entry option \<times> store" where
  \<comment> \<open>one \<open>findOneAndUpdate\<close>; the schema's pre-update hook adds \<open>updatedAt\<close>\<close>
  "WaitlistService_verifyEmail now token s =
     findOneAndUpdate (\<lambda>d. verificationToken d = Some token)
       (\<lambda>d. d\<lparr>emailVerified := True, status := ''approved'', verificationToken := None,
              updatedAt := now\<rparr>) s"

subsection \<open>Controller (\<open>controllers/waitlistController\<close>)\<close>

definition WaitlistController_verifyEmail :: "date \<Rightarrow> string \<Rightarrow> store \<Rightarrow> response \<times> store" where
  "WaitlistController_verifyEmail now token s =
     (if token = [] then
        ((400, JObj [(''success'', JBool False),
                     (''message'', JStr ''Verification token is required'')]), s)
      else
        (case WaitlistService_findByVerificationToken token s of
           None \<Rightarrow>
             ((404, JObj [(''success'', JBool False),
                          (''message'', JStr ''Invalid or expired verification token'')]), s)
         | Some entry \<Rightarrow>
             if emailVerified entry then
               ((200, JObj [(''success'', JBool True),
                            (''message'', JStr ''Email already verified''),
                            (''alreadyVerified'', JBool True)]), s)
             else
               ((200, JObj [(''success'', JBool True),
                            (''message'', JStr ''Email verified successfully! Welcome to the HASHD waitlist.''),
                            (''email'', JStr (email entry)),
                            (''userId'', JStr (oid entry))]),
                snd (WaitlistService_verifyEmail now token s))))"

subsection \<open>The single-file server's route \<open>GET /api/verify-email/:token\<close>\<close>

definition server_verify_email :: "date \<Rightarrow> string \<Rightarrow> store \<Rightarrow> response \<times> store" where
  "server_verify_email now token s =
     (case findOne (\<lambda>d. verificationToken d = Some token) s of
        None \<Rightarrow>
          ((404, JObj [(''success'', JBool False),
                       (''message'', JStr ''Invalid or expired verification token'')]), s)
      | Some entry \<Rightarrow>
          if emailVerified entry then
            ((200, JObj [(''success'', JBool True),
                         (''message'', JStr ''Email already verified''),
                         (''alreadyVerified'', JBool True)]), s)
          else
            ((200, JObj [(''success'', JBool True),
                         (''message'', JStr ''Email verified successfully!'')]),
             updateOne (\<lambda>d. oid d = oid entry)
               (\<lambda>d. d\<lparr>emailVerified := True, status := ''approved'', updatedAt := now,
                      verificationToken := None\<rparr>) s))"

section \<open>Looking an entry up by its identifier\<close>

text \<open>
  \<open>findById\<close> receives the identifier as the request gave it, a string, and the driver
  casts it to an \<open>ObjectId\<close> before it queries. The cast belongs to the driver, so it is
  a parameter \<open>cast\<close>: the canonical string of the identifier meant, or \<open>None\<close> where the
  driver throws a cast error.
\<close>

datatype error = CastError | TypeError | ValidationError | DuplicateKey | QueryError

definition code :: "error \<Rightarrow> nat option" where
  \<comment> \<open>\<open>error.code\<close>: only the server's duplicate-key error carries one, 11000\<close>
  "code err = (if err = DuplicateKey then Some 11000 else None)"

definition Waitlist_findById ::
  "(string \<Rightarrow> objectId option) \<Rightarrow> string \<Rightarrow> store \<Rightarrow> error + entry option" where
  "Waitlist_findById cast ident s =
     (case cast ident of
        None \<Rightarrow> Inl CastError
      | Some i \<Rightarrow> Inr (findOne (\<lambda>d. oid d = i) s))"

definition WaitlistService_findById ::
  "(string \<Rightarrow> objectId option) \<Rightarrow> string \<Rightarrow> store \<Rightarrow> error + entry option" where
  "WaitlistService_findById cast ident s = Waitlist_findById cast ident s"

section \<open>Sending the verification e-mail again\<close>

text \<open>
  A mail is \<open>(to, token, name)\<close>. The mail provider is a parameter \<open>send\<close>: \<open>True\<close> where
  the mail is accepted, \<open>False\<close> where sending throws. \<open>randomHex\<close> is the value that
  \<open>crypto.randomBytes(32).toString('hex')\<close> returns in this call. A handler returns its
  reply, the store, and the mails it asked the provider to send.
\<close>

type_synonym mail = "string \<times> string \<times> string"

subsection \<open>Controller (\<open>controllers/adminController\<close>)\<close>

definition AdminController_resendVerification ::
  "(string \<Rightarrow> objectId option) \<Rightarrow> string \<Rightarrow> (mail \<Rightarrow> bool) \<Rightarrow> date \<Rightarrow> string \<Rightarrow> store
     \<Rightarrow> response \<times> store \<times> mail list" where
  "AdminController_resendVerification cast randomHex send now ident s =
     (case WaitlistService_findById cast ident s of
        Inl err \<Rightarrow>
          ((500, JObj [(''success'', JBool False),
                       (''message'', JStr ''Failed to send verification email'')]), s, [])
      | Inr None \<Rightarrow>
          ((404, JObj [(''success'', JBool False),
                       (''message'', JStr ''Waitlist entry not found'')]), s, [])
      | Inr (Some entry) \<Rightarrow>
          if emailVerified entry then
            ((400, JObj [(''success'', JBool False),
                         (''message'', JStr ''Email is already verified'')]), s, [])
          else
            let missing = (case verificationToken entry of None \<Rightarrow> True | Some t \<Rightarrow> t = []);
                token = (if missing then randomHex else the (verificationToken entry));
                s' = (if missing
                      then updateOne (\<lambda>d. oid d = oid entry)
                             (\<lambda>d. d\<lparr>verificationToken := Some randomHex, updatedAt := now\<rparr>) s
                      else s);
                m = (email entry, token, name entry)
            in if send m then
                 ((200, JObj [(''success'', JBool True),
                              (''message'', JStr ''Verification email sent successfully'')]), s', [m])
               else
                 ((500, JObj [(''success'', JBool False),
                              (''message'', JStr ''Failed to send verification email'')]), s', [m]))"

subsection \<open>The single-file server's route \<open>POST /api/admin/waitlist/:id/resend-verification\<close>\<close>

definition server_resend_verification ::
  "(string \<Rightarrow> objectId option) \<Rightarrow> string \<Rightarrow> (mail \<Rightarrow> bool) \<Rightarrow> date \<Rightarrow> string \<Rightarrow> store
     \<Rightarrow> response \<times> store \<times> mail list" where
  "server_resend_verification cast randomHex send now ident s =
     (case cast ident of
        None \<Rightarrow>
          ((500, JObj [(''success'', JBool False),
                       (''message'', JStr ''Failed to resend verification email'')]), s, [])
      | Some i \<Rightarrow>
          (case findOne (\<lambda>d. oid d = i) s of
             None \<Rightarrow>
               ((404, JObj [(''success'', JBool False),
                            (''message'', JStr ''Entry not found'')]), s, [])
           | Some entry \<Rightarrow>
               if emailVerified entry then
                 ((400, JObj [(''success'', JBool False),
                              (''message'', JStr ''Email already verified'')]), s, [])
               else
                 let s' = updateOne (\<lambda>d. oid d = oid entry)
                            (\<lambda>d. d\<lparr>verificationToken := Some randomHex, updatedAt := now\<rparr>) s;
                     m = (email entry, randomHex, name entry)
                 in if send m then
                      ((200, JObj [(''success'', JBool True),
                                   (''message'', JStr ''Verification email resent successfully'')]), s', [m])
                    else
                      ((500, JObj [(''success'', JBool False),
                                   (''message'', JStr ''Failed to send verification email'')]), s', [m])))"

section \<open>Authentication of the administrator (\<open>middleware/auth\<close>)\<close>

text \<open>
  \<open>ethers.verifyMessage\<close> is a parameter: the address recovered from the message and the
  signature, or \<open>None\<close> where it throws. \<open>adminEnv\<close> is the environment variable
  \<open>ADMIN_WALLET_ADDRESS\<close>. A field of the request body is \<open>None\<close> when absent. The
  middleware either replies (\<open>Inl\<close>) or calls \<open>next()\<close> with \<open>req.adminWallet\<close> set (\<open>Inr\<close>).
\<close>

definition falsy :: "string option \<Rightarrow> bool" where
  \<comment> \<open>\<open>!v\<close> for a value that is a string or absent\<close>
  "falsy v = (case v of None \<Rightarrow> True | Some str \<Rightarrow> str = [])"

definition verifyWalletSignature ::
  "(string \<Rightarrow> string \<Rightarrow> string option) \<Rightarrow> string option
     \<Rightarrow> string option \<Rightarrow> string option \<Rightarrow> string option \<Rightarrow> response + string" where
  "verifyWalletSignature verifyMessage adminEnv wallet signature message =
     (if falsy wallet \<or> falsy signature \<or> falsy message then
        Inl (401, JObj [(''success'', JBool False),
                        (''message'', JStr ''Missing authentication credentials'')])
      else
        (case verifyMessage (the message) (the signature) of
           None \<Rightarrow>
             Inl (401, JObj [(''success'', JBool False),
                             (''message'', JStr ''Authentication failed'')])
         | Some recoveredAddress \<Rightarrow>
             if toLowerCase recoveredAddress \<noteq> toLowerCase (the wallet) then
               Inl (401, JObj [(''success'', JBool False),
                               (''message'', JStr ''Invalid signature'')])
             else
               let adminWallet = map_option toLowerCase adminEnv
               in if falsy adminWallet then
                    Inl (500, JObj [(''success'', JBool False),
                                    (''message'', JStr ''Admin wallet not configured'')])
                  else if toLowerCase (the wallet) \<noteq> the adminWallet then
                    Inl (403, JObj [(''success'', JBool False),
                                    (''message'', JStr ''Unauthorized: Admin access required'')])
                  else Inr (toLowerCase (the wallet))))"

section \<open>Statistics (\<open>models/Waitlist\<close>)\<close>

record statistics =
  total :: int
  verified :: int
  pending :: int
  approved :: int
  rejected :: int
  unverified :: int

definition Waitlist_getStatistics :: "store \<Rightarrow> statistics" where
  "Waitlist_getStatistics s =
     (let t = countDocuments (\<lambda>d. True) s;
          v = countDocuments (\<lambda>d. emailVerified d = True) s;
          p = countDocuments (\<lambda>d. status d = ''pending'') s;
          a = countDocuments (\<lambda>d. status d = ''approved'') s;
          r = countDocuments (\<lambda>d. status d = ''rejected'') s
      in \<lparr>total = t, verified = v, pending = p, approved = a, rejected = r,
          unverified = t - v\<rparr>)"

definition WaitlistService_getStatistics :: "store \<Rightarrow> statistics" where
  "WaitlistService_getStatistics s = Waitlist_getStatistics s"

section \<open>The enumeration of statuses\<close>

definition validStatuses :: "string list" where
  "validStatuses = [''pending'', ''approved'', ''rejected'']"

definition validStatus :: "string \<Rightarrow> bool" where
  \<comment> \<open>the schema's enumeration for \<open>status\<close>, which is also the middleware's list\<close>
  "validStatus st = (st \<in> set validStatuses)"

section \<open>Submission of a waitlist entry\<close>

subsection \<open>Regular expressions of the validators\<close>

definition isDigit :: "char \<Rightarrow> bool" where
  "isDigit c = (let n = (of_char c :: nat) in 48 \<le> n \<and> n \<le> 57)"

definition isWordChar :: "char \<Rightarrow> bool" where
  \<comment> \<open>the class \<open>\w\<close>, that is \<open>[A-Za-z0-9_]\<close>\<close>
  "isWordChar c =
     (let n = (of_char c :: nat)
      in (48 \<le> n \<and> n \<le> 57) \<or> (65 \<le> n \<and> n \<le> 90) \<or> n = 95 \<or> (97 \<le> n \<and> n \<le> 122))"

definition isHexChar :: "char \<Rightarrow> bool" where
  \<comment> \<open>the class \<open>[a-fA-F0-9]\<close>\<close>
  "isHexChar c =
     (let n = (of_char c :: nat)
      in (48 \<le> n \<and> n \<le> 57) \<or> (65 \<le> n \<and> n \<le> 70) \<or> (97 \<le> n \<and> n \<le> 102))"

definition EMAIL_REGEX :: "string \<Rightarrow> bool" where
  \<comment> \<open>\<open>/^[^\s@]+@[^\s@]+\.[^\s@]+$/.test(str)\<close>: the longest run of characters that are
      neither blank nor \<open>@\<close> is the local part (a shorter one would have to be followed by
      \<open>@\<close>); after the \<open>@\<close> every character to the end is neither blank nor \<open>@\<close>, and a
      dot stands somewhere strictly inside.\<close>
  "EMAIL_REGEX str =
     (let ok = (\<lambda>c. \<not> isSpace c \<and> c \<noteq> CHR ''@'');
          local = takeWhile ok str;
          rest = dropWhile ok str
      in local \<noteq> [] \<and>
         (case rest of
            [] \<Rightarrow> False
          | c # host \<Rightarrow> c = CHR ''@'' \<and> list_all ok host \<and> CHR ''.'' \<in> set (butlast (tl host))))"

definition walletRegex :: "string \<Rightarrow> bool" where
  \<comment> \<open>\<open>/^0x[a-fA-F0-9]{40}$/\<close>\<close>
  "walletRegex v = (take 2 v = ''0x'' \<and> length v = 42 \<and> list_all isHexChar (drop 2 v))"

definition xHandleRegex :: "string \<Rightarrow> bool" where
  \<comment> \<open>\<open>/^[a-zA-Z0-9_]{1,15}$/\<close>\<close>
  "xHandleRegex v = (1 \<le> length v \<and> length v \<le> 15 \<and> list_all isWordChar v)"

fun stripPrefix :: "string \<Rightarrow> string \<Rightarrow> string option" where
  "stripPrefix [] str = Some str"
| "stripPrefix (p # ps) [] = None"
| "stripPrefix (p # ps) (c # cs) = (if p = c then stripPrefix ps cs else None)"

definition postUrlRegex :: "string \<Rightarrow> (string \<times> string \<times> string) option" where
  \<comment> \<open>\<open>str.match(/^https:\/\/(twitter\.com|x\.com)\/(\w+)\/status\/(\d+)/)\<close>: the three
      groups, or \<open>None\<close> for \<open>null\<close>. The pattern is anchored at the start only. \<open>\w+\<close> and
      \<open>\d+\<close> take the longest run: a shorter user name would have to be followed by \<open>/\<close>.\<close>
  "postUrlRegex str =
     (case stripPrefix ''https://'' str of
        None \<Rightarrow> None
      | Some r0 \<Rightarrow>
          (case (case stripPrefix ''twitter.com'' r0 of
                   Some r \<Rightarrow> Some (''twitter.com'', r)
                 | None \<Rightarrow>
                     (case stripPrefix ''x.com'' r0 of
                        Some r \<Rightarrow> Some (''x.com'', r)
                      | None \<Rightarrow> None)) of
             None \<Rightarrow> None
           | Some (domain, r1) \<Rightarrow>
               (case stripPrefix ''/'' r1 of
                  None \<Rightarrow> None
                | Some r2 \<Rightarrow>
                    let username = takeWhile isWordChar r2
                    in if username = [] then None
                       else
                         (case stripPrefix ''/status/'' (dropWhile isWordChar r2) of
                            None \<Rightarrow> None
                          | Some r4 \<Rightarrow>
                              let tweetId = takeWhile isDigit r4
                              in if tweetId = [] then None
                                 else Some (domain, username, tweetId)))))"

subsection \<open>The request body and the validation middleware (\<open>middleware/validation\<close>)\<close>

record submission =
  req_name :: "string option"
  req_email :: "string option"
  req_walletAddress :: "string option"
  req_roles :: "string list option"
  req_note :: "string option"
  req_xHandle :: "string option"

definition validRoles :: "string list" where
  "validRoles = [''developer'', ''community_builder'', ''investor'', ''content_creator'',
                 ''early_adopter'', ''other'']"

fun join :: "string \<Rightarrow> string list \<Rightarrow> string" where
  "join sep [] = []"
| "join sep [x] = x"
| "join sep (x # y # ys) = x @ sep @ join sep (y # ys)"

text \<open>
  \<open>ethers.isAddress\<close> is a parameter. The middleware replies (\<open>Some\<close>) or calls \<open>next()\<close>
  (\<open>None\<close>).
\<close>

definition validateWaitlistSubmission :: "(string \<Rightarrow> bool) \<Rightarrow> submission \<Rightarrow> response option" where
  "validateWaitlistSubmission isAddress b =
     (if falsy (req_name b) \<or> falsy (req_email b) \<or>
         (case req_roles b of None \<Rightarrow> True | Some rs \<Rightarrow> rs = []) then
        Some (400, JObj [(''success'', JBool False),
                         (''message'', JStr ''Missing required fields: name, email, and roles are required'')])
      else if \<not> falsy (req_note b) \<and> length (the (req_note b)) > 500 then
        Some (400, JObj [(''success'', JBool False),
                         (''message'', JStr ''Note cannot exceed 500 characters'')])
      else if \<not> EMAIL_REGEX (the (req_email b)) then
        Some (400, JObj [(''success'', JBool False),
                         (''message'', JStr ''Invalid email address format'')])
      else if \<not> falsy (req_walletAddress b) \<and> \<not> isAddress (the (req_walletAddress b)) then
        Some (400, JObj [(''success'', JBool False),
                         (''message'', JStr ''Invalid wallet address format'')])
      else
        let invalidRoles = filter (\<lambda>role. role \<notin> set validRoles) (the (req_roles b))
        in if length invalidRoles > 0 then
             Some (400, JObj [(''success'', JBool False),
                              (''message'', JStr (''Invalid roles: '' @ join '', '' invalidRoles))])
           else None)"

subsection \<open>The schema: setters, validators, unique indexes (\<open>models/Waitlist\<close>)\<close>

definition Waitlist_validate :: "entry \<Rightarrow> bool" where
  \<comment> \<open>the validators that \<open>save()\<close> runs; a failure throws a validation error\<close>
  "Waitlist_validate d =
     (name d \<noteq> [] \<and> 2 \<le> length (name d) \<and> length (name d) \<le> 100 \<and>
      email d \<noteq> [] \<and> EMAIL_REGEX (email d) \<and>
      (falsy (walletAddress d) \<or> walletRegex (the (walletAddress d))) \<and>
      list_all (\<lambda>role. role \<in> set validRoles) (roles d) \<and> length (roles d) > 0 \<and>
      (case note' d of None \<Rightarrow> True | Some n \<Rightarrow> length n \<le> 500) \<and>
      (falsy (xHandle d) \<or> xHandleRegex (the (xHandle d))) \<and>
      (falsy (postUrl d) \<or> postUrlRegex (the (postUrl d)) \<noteq> None) \<and>
      validStatus (status d))"

definition insertOne :: "entry \<Rightarrow> store \<Rightarrow> error + store" where
  \<comment> \<open>the unique indexes are the one on \<open>_id\<close> and the one on \<open>email\<close> (\<open>unique: true\<close> in
      the schema, \<open>createIndex({ email: 1 }, { unique: true })\<close> in the single-file server);
      a violation is the server's error 11000\<close>
  "insertOne doc s =
     (if oid doc \<in> set (map oid s) \<or> email doc \<in> set (map email s) then Inl DuplicateKey
      else Inr (s @ [doc]))"

definition Waitlist_save :: "date \<Rightarrow> entry \<Rightarrow> store \<Rightarrow> error + store" where
  \<comment> \<open>\<open>save()\<close> of a new document: validation, the pre-save hook, the insert\<close>
  "Waitlist_save now doc s =
     (if \<not> Waitlist_validate doc then Inl ValidationError
      else insertOne (doc\<lparr>updatedAt := now\<rparr>) s)"

subsection \<open>Service and controller\<close>

text \<open>
  \<open>newId\<close> is the identifier the driver generates for the document. An absent name or
  role list is the empty one: the validators refuse both alike.
\<close>

definition WaitlistService_newEntry :: "objectId \<Rightarrow> string \<Rightarrow> date \<Rightarrow> submission \<Rightarrow> entry" where
  \<comment> \<open>\<open>new Waitlist({...})\<close> in \<open>createEntry\<close>, with the schema's setters (\<open>trim\<close>,
      \<open>lowercase\<close>) and defaults applied\<close>
  "WaitlistService_newEntry newId randomHex now b =
     \<lparr>oid = newId,
      name = trim (case req_name b of None \<Rightarrow> [] | Some n \<Rightarrow> n),
      email = trim (toLowerCase (toLowerCase (the (req_email b)))),
      walletAddress = (if falsy (req_walletAddress b) then None else req_walletAddress b),
      roles = (case req_roles b of None \<Rightarrow> [] | Some rs \<Rightarrow> rs),
      note' = (if \<not> falsy (req_note b) \<and> trim (the (req_note b)) \<noteq> []
               then Some (trim (trim (the (req_note b)))) else None),
      xHandle = (if \<not> falsy (req_xHandle b) \<and> trim (the (req_xHandle b)) \<noteq> []
                 then Some (toLowerCase (trim (toLowerCase (trim (the (req_xHandle b))))))
                 else None),
      emailVerified = False,
      verificationToken = Some randomHex,
      posted = False,
      postUrl = None,
      status = ''pending'',
      createdAt = now,
      updatedAt = now\<rparr>"

definition WaitlistService_createEntry ::
  "objectId \<Rightarrow> string \<Rightarrow> date \<Rightarrow> submission \<Rightarrow> store
     \<Rightarrow> error + ((objectId \<times> string \<times> string) \<times> store)" where
  \<comment> \<open>the result is \<open>{ id, verificationToken, email }\<close>; \<open>email.toLowerCase()\<close> throws on
      an absent e-mail address\<close>
  "WaitlistService_createEntry newId randomHex now b s =
     (case req_email b of
        None \<Rightarrow> Inl TypeError
      | Some e \<Rightarrow>
          let entry = WaitlistService_newEntry newId randomHex now b
          in (case Waitlist_save now entry s of
                Inl err \<Rightarrow> Inl err
              | Inr s' \<Rightarrow> Inr ((oid entry, randomHex, email entry), s')))"

definition WaitlistController_submit ::
  "objectId \<Rightarrow> string \<Rightarrow> date \<Rightarrow> submission \<Rightarrow> store \<Rightarrow> response \<times> store \<times> mail list" where
  \<comment> \<open>the mail is sent without waiting for it; a failure of the provider is logged only\<close>
  "WaitlistController_submit newId randomHex now b s =
     (case WaitlistService_createEntry newId randomHex now b s of
        Inr ((ident, token, addr), s') \<Rightarrow>
          ((201, JObj [(''success'', JBool True),
                       (''message'', JStr ''Successfully joined the waitlist. Please check your email to verify your address.''),
                       (''id'', JStr ident)]),
           s',
           [(addr, token, (case req_name b of None \<Rightarrow> ''THERE'' | Some n \<Rightarrow> n))])
      | Inl err \<Rightarrow>
          if code err = Some 11000 then
            ((409, JObj [(''success'', JBool False),
                         (''message'', JStr ''This email is already on the waitlist'')]), s, [])
          else
            ((500, JObj [(''success'', JBool False),
                         (''message'', JStr ''Failed to join waitlist. Please try again.'')]), s, []))"

definition route_POST_waitlist ::
  "(string \<Rightarrow> bool) \<Rightarrow> objectId \<Rightarrow> string \<Rightarrow> date \<Rightarrow> submission \<Rightarrow> store
     \<Rightarrow> response \<times> store \<times> mail list" where
  \<comment> \<open>\<open>router.post('/', waitlistLimiter, validateWaitlistSubmission, submit)\<close>, the rate
      limiter left out\<close>
  "route_POST_waitlist isAddress newId randomHex now b s =
     (case validateWaitlistSubmission isAddress b of
        Some reply \<Rightarrow> (reply, s, [])
      | None \<Rightarrow> WaitlistController_submit newId randomHex now b s)"

section \<open>Recording the URL of a post (\<open>controllers/waitlistController\<close>, \<open>savePost\<close>)\<close>

definition WaitlistService_findByPostUrl :: "string \<Rightarrow> store \<Rightarrow> entry option" where
  "WaitlistService_findByPostUrl url s = findOne (\<lambda>d. postUrl d = Some url) s"

definition WaitlistService_updatePostStatus ::
  "date \<Rightarrow> objectId \<Rightarrow> string \<Rightarrow> store \<Rightarrow> entry option \<times> store" where
  \<comment> \<open>\<open>findByIdAndUpdate(id, { posted: true, postUrl })\<close>; no unique index covers
      \<open>postUrl\<close>, so the write is never refused\<close>
  "WaitlistService_updatePostStatus now i url s =
     findOneAndUpdate (\<lambda>d. oid d = i)
       (\<lambda>d. d\<lparr>posted := True, postUrl := Some url, updatedAt := now\<rparr>) s"

text \<open>
  What the driver's cast does with a string: 24 hexadecimal digits, in either letter case,
  denote an identifier, which prints in lower case (\<open>toString()\<close>); any other string is
  refused with a cast error.
\<close>

definition castObjectId :: "string \<Rightarrow> objectId option" where
  "castObjectId str =
     (if length str = 24 \<and> list_all isHexChar str then Some (toLowerCase str) else None)"

text \<open>
  The handler in two parts: everything up to its last \<open>await\<close>, which only reads the
  store and ends either in a reply or in the decision to write; and the write with the
  reply that follows it. The handler is the second part run right after the first.
\<close>

definition savePost_check ::
  "(string \<Rightarrow> objectId option) \<Rightarrow> string option \<Rightarrow> string option \<Rightarrow> store
     \<Rightarrow> response + (entry \<times> string)" where
  "savePost_check cast userId rawUrl s =
     (if falsy userId \<or> falsy rawUrl then
        Inl (400, JObj [(''success'', JBool False),
                        (''message'', JStr ''User ID and post URL are required'')])
      else
        (case postUrlRegex (the rawUrl) of
           None \<Rightarrow>
             Inl (400, JObj [(''success'', JBool False),
                             (''message'', JStr ''Invalid X post URL format'')])
         | Some (domain, username, tweetId) \<Rightarrow>
             let sanitizedPostUrl = ''https://'' @ domain @ ''/'' @ username @ ''/status/'' @ tweetId
             in (case WaitlistService_findById cast (the userId) s of
                   Inl err \<Rightarrow>
                     Inl (500, JObj [(''success'', JBool False),
                                     (''message'', JStr ''Failed to save post URL. Please try again.'')])
                 | Inr None \<Rightarrow>
                     Inl (404, JObj [(''success'', JBool False),
                                     (''message'', JStr ''Waitlist entry not found'')])
                 | Inr (Some entry) \<Rightarrow>
                     if \<not> emailVerified entry then
                       Inl (400, JObj [(''success'', JBool False),
                                       (''message'', JStr ''Please verify your email first'')])
                     else
                       (case WaitlistService_findByPostUrl sanitizedPostUrl s of
                          None \<Rightarrow> Inr (entry, sanitizedPostUrl)
                        | Some existingPost \<Rightarrow>
                            if oid existingPost \<noteq> the userId then
                              Inl (400, JObj [(''success'', JBool False),
                                              (''message'', JStr ''This post has already been used by another user. Please create a new post.'')])
                            else Inr (entry, sanitizedPostUrl)))))"

definition savePost_write :: "date \<Rightarrow> entry \<times> string \<Rightarrow> store \<Rightarrow> response \<times> store" where
  "savePost_write now w s =
     ((200, JObj [(''success'', JBool True),
                  (''message'', JStr ''Post URL saved successfully! We will verify it automatically nearer to launch.'')]),
      snd (WaitlistService_updatePostStatus now (oid (fst w)) (snd w) s))"

definition WaitlistController_savePost ::
  "(string \<Rightarrow> objectId option) \<Rightarrow> date \<Rightarrow> string option \<Rightarrow> string option \<Rightarrow> store
     \<Rightarrow> response \<times> store" where
  "WaitlistController_savePost cast now userId rawUrl s =
     (case savePost_check cast userId rawUrl s of
        Inl reply \<Rightarrow> (reply, s)
      | Inr w \<Rightarrow> savePost_write now w s)"

definition postUrlUnique :: "store \<Rightarrow> bool" where
  \<comment> \<open>the data model's invariant: a post URL is attached to one entry at most\<close>
  "postUrlUnique s =
     (\<forall>d\<in>set s. \<forall>d'\<in>set s. postUrl d \<noteq> None \<and> postUrl d = postUrl d' \<longrightarrow> oid d = oid d')"

section \<open>The administrator's listing (\<open>models/Waitlist\<close>, \<open>controllers/adminController\<close>)\<close>

definition optStr :: "string option \<Rightarrow> json" where
  "optStr v = (case v of None \<Rightarrow> JNull | Some str \<Rightarrow> JStr str)"

definition toObject :: "entry \<Rightarrow> json" where
  \<comment> \<open>the plain object of a document, which \<open>lean()\<close> and \<open>toObject()\<close> give\<close>
  "toObject d =
     JObj [(''_id'', JStr (oid d)),
           (''name'', JStr (name d)),
           (''email'', JStr (email d)),
           (''walletAddress'', optStr (walletAddress d)),
           (''roles'', JArr (map JStr (roles d))),
           (''note'', optStr (note' d)),
           (''xHandle'', optStr (xHandle d)),
           (''emailVerified'', JBool (emailVerified d)),
           (''verificationToken'', optStr (verificationToken d)),
           (''posted'', JBool (posted d)),
           (''postUrl'', optStr (postUrl d)),
           (''status'', JStr (status d)),
           (''createdAt'', JDate (createdAt d)),
           (''updatedAt'', JDate (updatedAt d))]"

definition toSafeObject :: "entry \<Rightarrow> json" where
  \<comment> \<open>\<open>const obj = this.toObject(); delete obj.verificationToken; return obj\<close>\<close>
  "toSafeObject d =
     (case toObject d of
        JObj kvs \<Rightarrow> JObj (filter (\<lambda>kv. fst kv \<noteq> ''verificationToken'') kvs)
      | j \<Rightarrow> j)"

text \<open>
  The regular-expression engine of the store is a parameter \<open>regexI\<close>: the matcher of a
  pattern under the option \<open>i\<close>, or \<open>None\<close> for a pattern the store refuses. The store
  also refuses a negative \<open>skip\<close>; a \<open>limit\<close> of 0 means no limit, a negative one its
  absolute value. Entries of equal \<open>createdAt\<close> keep their order here (the store promises
  none). \<open>Math.ceil(total / limit)\<close> with \<open>limit = 0\<close> is infinite or not a number, which
  JSON writes as \<open>null\<close>.
\<close>

definition findSortSkipLimit :: "(entry \<Rightarrow> bool) \<Rightarrow> int \<Rightarrow> int \<Rightarrow> store \<Rightarrow> entry list" where
  \<comment> \<open>\<open>find(query).sort({ createdAt: -1 }).skip(k).limit(lim).lean()\<close> for \<open>k \<ge> 0\<close>\<close>
  "findSortSkipLimit query k lim s =
     (let sorted = sort_key (\<lambda>d. - createdAt d) (filter query s);
          skipped = drop (nat k) sorted
      in if lim = 0 then skipped else take (nat \<bar>lim\<bar>) skipped)"

definition Waitlist_getPaginated ::
  "(string \<Rightarrow> (string \<Rightarrow> bool) option) \<Rightarrow> int \<Rightarrow> int \<Rightarrow> string option \<Rightarrow> string option
     \<Rightarrow> bool option \<Rightarrow> store \<Rightarrow> error + (string \<times> json) list" where
  "Waitlist_getPaginated regexI pg lim statusFilter search verifiedFilter s =
     (if \<not> falsy search \<and> regexI (the search) = None then Inl QueryError
      else
        let query = (\<lambda>d.
              (falsy statusFilter \<or> status d = the statusFilter) \<and>
              (case verifiedFilter of None \<Rightarrow> True | Some v \<Rightarrow> emailVerified d = v) \<and>
              (falsy search \<or> the (regexI (the search)) (name d)
                            \<or> the (regexI (the search)) (email d)));
            n = countDocuments query s
        in if (pg - 1) * lim < 0 then Inl QueryError
           else
             let entries = findSortSkipLimit query ((pg - 1) * lim) lim s
             in Inr [(''entries'', JArr (map toObject entries)),
                     (''pagination'',
                        JObj [(''page'', JNum pg),
                              (''limit'', JNum lim),
                              (''total'', JNum n),
                              (''pages'', if lim = 0 then JNull else JNum (- ((- n) div lim)))])])"

definition WaitlistService_getEntries ::
  "(string \<Rightarrow> (string \<Rightarrow> bool) option) \<Rightarrow> int \<Rightarrow> int \<Rightarrow> string option \<Rightarrow> string option
     \<Rightarrow> store \<Rightarrow> error + (string \<times> json) list" where
  "WaitlistService_getEntries regexI pg lim statusFilter search s =
     Waitlist_getPaginated regexI pg lim statusFilter search None s"

text \<open>
  \<open>pg\<close> and \<open>lim\<close> are the body's \<open>page\<close> and \<open>limit\<close> after \<open>parseInt\<close>, \<open>None\<close> when the
  body has none (the defaults 1 and 50 apply); a value that parses to no number is outside
  the model.
\<close>

definition AdminController_getEntries ::
  "(string \<Rightarrow> (string \<Rightarrow> bool) option) \<Rightarrow> int option \<Rightarrow> int option \<Rightarrow> string option
     \<Rightarrow> string option \<Rightarrow> store \<Rightarrow> response" where
  "AdminController_getEntries regexI pg lim statusFilter search s =
     (case WaitlistService_getEntries regexI
             (case pg of None \<Rightarrow> 1 | Some p \<Rightarrow> p) (case lim of None \<Rightarrow> 50 | Some l \<Rightarrow> l)
             statusFilter search s of
        Inr result \<Rightarrow> (200, JObj ((''success'', JBool True) # result))
      | Inl err \<Rightarrow>
          (500, JObj [(''success'', JBool False),
                      (''message'', JStr ''Failed to fetch waitlist entries'')]))"

section \<open>Changing the status of an entry, deleting an entry\<close>

definition validateStatusUpdate :: "string option \<Rightarrow> response option" where
  \<comment> \<open>\<open>middleware/validation\<close>: a reply (\<open>Some\<close>) or \<open>next()\<close> (\<open>None\<close>)\<close>
  "validateStatusUpdate st =
     (if falsy st then
        Some (400, JObj [(''success'', JBool False), (''message'', JStr ''Status is required'')])
      else if the st \<notin> set validStatuses then
        Some (400, JObj [(''success'', JBool False),
                         (''message'', JStr (''Invalid status. Must be one of: '' @ join '', '' validStatuses))])
      else None)"

definition WaitlistService_updateStatus ::
  "(string \<Rightarrow> objectId option) \<Rightarrow> date \<Rightarrow> string \<Rightarrow> string option \<Rightarrow> store
     \<Rightarrow> error + (entry option \<times> store)" where
  \<comment> \<open>\<open>findByIdAndUpdate(id, { status })\<close>; an absent status sets nothing but \<open>updatedAt\<close>\<close>
  "WaitlistService_updateStatus cast now ident st s =
     (case cast ident of
        None \<Rightarrow> Inl CastError
      | Some i \<Rightarrow>
          Inr (findOneAndUpdate (\<lambda>d. oid d = i)
                 (\<lambda>d. case st of None \<Rightarrow> d\<lparr>updatedAt := now\<rparr>
                              | Some v \<Rightarrow> d\<lparr>status := v, updatedAt := now\<rparr>) s))"

definition AdminController_updateStatus ::
  "(string \<Rightarrow> objectId option) \<Rightarrow> date \<Rightarrow> string \<Rightarrow> string option \<Rightarrow> store
     \<Rightarrow> response \<times> store" where
  "AdminController_updateStatus cast now ident st s =
     (case WaitlistService_findById cast ident s of
        Inl err \<Rightarrow>
          ((500, JObj [(''success'', JBool False), (''message'', JStr ''Failed to update status'')]), s)
      | Inr None \<Rightarrow>
          ((404, JObj [(''success'', JBool False), (''message'', JStr ''Waitlist entry not found'')]), s)
      | Inr (Some entry) \<Rightarrow>
          (case WaitlistService_updateStatus cast now ident st s of
             Inl err \<Rightarrow>
               ((500, JObj [(''success'', JBool False), (''message'', JStr ''Failed to update status'')]), s)
           | Inr (None, s') \<Rightarrow>
               ((400, JObj [(''success'', JBool False), (''message'', JStr ''Failed to update status'')]), s')
           | Inr (Some result, s') \<Rightarrow>
               ((200, JObj [(''success'', JBool True), (''message'', JStr ''Status updated successfully'')]), s')))"

definition route_POST_admin_status ::
  "(string \<Rightarrow> objectId option) \<Rightarrow> date \<Rightarrow> string \<Rightarrow> string option \<Rightarrow> store
     \<Rightarrow> response \<times> store" where
  \<comment> \<open>\<open>router.post('/waitlist/:id/status', validateStatusUpdate, updateStatus)\<close>, for a
      request that has passed the authentication middleware\<close>
  "route_POST_admin_status cast now ident st s =
     (case validateStatusUpdate st of
        Some reply \<Rightarrow> (reply, s)
      | None \<Rightarrow> AdminController_updateStatus cast now ident st s)"

fun deleteOne :: "(entry \<Rightarrow> bool) \<Rightarrow> store \<Rightarrow> store" where
  "deleteOne q [] = []"
| "deleteOne q (d # ds) = (if q d then ds else d # deleteOne q ds)"

definition WaitlistService_deleteEntry ::
  "(string \<Rightarrow> objectId option) \<Rightarrow> string \<Rightarrow> store \<Rightarrow> error + (entry option \<times> store)" where
  \<comment> \<open>\<open>findByIdAndDelete(id)\<close>: the deleted document, or \<open>null\<close>\<close>
  "WaitlistService_deleteEntry cast ident s =
     (case cast ident of
        None \<Rightarrow> Inl CastError
      | Some i \<Rightarrow> Inr (find (\<lambda>d. oid d = i) s, deleteOne (\<lambda>d. oid d = i) s))"

definition AdminController_deleteEntry ::
  "(string \<Rightarrow> objectId option) \<Rightarrow> string \<Rightarrow> store \<Rightarrow> response \<times> store" where
  "AdminController_deleteEntry cast ident s =
     (case WaitlistService_findById cast ident s of
        Inl err \<Rightarrow>
          ((500, JObj [(''success'', JBool False), (''message'', JStr ''Failed to delete entry'')]), s)
      | Inr None \<Rightarrow>
          ((404, JObj [(''success'', JBool False), (''message'', JStr ''Waitlist entry not found'')]), s)
      | Inr (Some entry) \<Rightarrow>
          (case WaitlistService_deleteEntry cast ident s of
             Inl err \<Rightarrow>
               ((500, JObj [(''success'', JBool False), (''message'', JStr ''Failed to delete entry'')]), s)
           | Inr (None, s') \<Rightarrow>
               ((400, JObj [(''success'', JBool False), (''message'', JStr ''Failed to delete entry'')]), s')
           | Inr (Some result, s') \<Rightarrow>
               ((200, JObj [(''success'', JBool True), (''message'', JStr ''Entry deleted successfully'')]), s')))"

section \<open>The single-file server's own middleware and submission route\<close>

definition server_verifyWalletSignature ::
  "(string \<Rightarrow> string \<Rightarrow> string option) \<Rightarrow> string option
     \<Rightarrow> string option \<Rightarrow> string option \<Rightarrow> string option \<Rightarrow> response + string" where
  \<comment> \<open>\<open>ADMIN_WALLET\<close> is the environment variable in lower case, \<open>undefined\<close> when unset;
      no string is equal to \<open>undefined\<close>\<close>
  "server_verifyWalletSignature verifyMessage adminEnv wallet signature message =
     (if falsy wallet \<or> falsy signature \<or> falsy message then
        Inl (401, JObj [(''success'', JBool False),
                        (''message'', JStr ''Missing authentication credentials'')])
      else
        (case verifyMessage (the message) (the signature) of
           None \<Rightarrow>
             Inl (401, JObj [(''success'', JBool False),
                             (''message'', JStr ''Authentication failed'')])
         | Some recoveredAddress \<Rightarrow>
             if toLowerCase recoveredAddress \<noteq> toLowerCase (the wallet) then
               Inl (401, JObj [(''success'', JBool False),
                               (''message'', JStr ''Invalid signature'')])
             else if Some (toLowerCase recoveredAddress) \<noteq> map_option toLowerCase adminEnv then
               Inl (403, JObj [(''success'', JBool False),
                               (''message'', JStr ''Unauthorized: Admin access only'')])
             else Inr (toLowerCase recoveredAddress)))"

definition server_newEntry :: "objectId \<Rightarrow> string \<Rightarrow> date \<Rightarrow> submission \<Rightarrow> entry" where
  \<comment> \<open>the object literal that the route inserts; no schema stands between it and the
      collection\<close>
  "server_newEntry newId randomHex now b =
     \<lparr>oid = newId,
      name = the (req_name b),
      email = toLowerCase (the (req_email b)),
      walletAddress = (if falsy (req_walletAddress b) then None else req_walletAddress b),
      roles = the (req_roles b),
      note' = (if \<not> falsy (req_note b) \<and> trim (the (req_note b)) \<noteq> []
               then Some (trim (the (req_note b))) else None),
      xHandle = (if \<not> falsy (req_xHandle b) \<and> trim (the (req_xHandle b)) \<noteq> []
                 then Some (toLowerCase (trim (the (req_xHandle b)))) else None),
      emailVerified = False,
      verificationToken = Some randomHex,
      posted = False,
      postUrl = None,
      status = ''pending'',
      createdAt = now,
      updatedAt = now\<rparr>"

definition server_submit ::
  "(string \<Rightarrow> bool) \<Rightarrow> objectId \<Rightarrow> string \<Rightarrow> date \<Rightarrow> submission \<Rightarrow> store
     \<Rightarrow> response \<times> store \<times> mail list" where
  \<comment> \<open>\<open>app.post('/api/waitlist', ...)\<close>, the rate limiter left out; a failure of the
      mail provider is logged only\<close>
  "server_submit isAddress newId randomHex now b s =
     (if falsy (req_name b) \<or> falsy (req_email b) \<or>
         (case req_roles b of None \<Rightarrow> True | Some rs \<Rightarrow> rs = []) then
        ((400, JObj [(''success'', JBool False),
                     (''message'', JStr ''Missing required fields'')]), s, [])
      else if \<not> EMAIL_REGEX (the (req_email b)) then
        ((400, JObj [(''success'', JBool False),
                     (''message'', JStr ''Invalid email address'')]), s, [])
      else if \<not> falsy (req_walletAddress b) \<and> \<not> isAddress (the (req_walletAddress b)) then
        ((400, JObj [(''success'', JBool False),
                     (''message'', JStr ''Invalid wallet address'')]), s, [])
      else
        (case insertOne (server_newEntry newId randomHex now b) s of
           Inr s' \<Rightarrow>
             ((201, JObj [(''success'', JBool True),
                          (''message'', JStr ''Successfully joined the waitlist. Please check your email to verify your address.''),
                          (''id'', JStr newId)]),
              s',
              [(the (req_email b), randomHex, the (req_name b))])
         | Inl err \<Rightarrow>
             if code err = Some 11000 then
               ((409, JObj [(''success'', JBool False),
                            (''message'', JStr ''This email is already on the waitlist'')]), s, [])
             else
               ((500, JObj [(''success'', JBool False),
                            (''message'', JStr ''Failed to join waitlist. Please try again.'')]), s, [])))"

section \<open>Invariants of the store\<close>

definition statusesValid :: "store \<Rightarrow> bool" where
  \<comment> \<open>every status is one of the schema's enumeration\<close>
  "statusesValid s = (\<forall>d\<in>set s. validStatus (status d))"

definition idsCanonical :: "(string \<Rightarrow> objectId option) \<Rightarrow> store \<Rightarrow> bool" where
  \<comment> \<open>the driver casts the string of a stored identifier to that identifier\<close>
  "idsCanonical cast s = (\<forall>d\<in>set s. cast (oid d) = Some (oid d))"

section \<open>Example data\<close>

definition demoEntry :: entry where
  "demoEntry =
     \<lparr>oid = ''507f1f77bcf86cd799439011'', name = ''John Doe'', email = ''john@ex.com'',
      walletAddress = None, roles = [''developer''], note' = None, xHandle = None,
      emailVerified = False, verificationToken = Some ''valid-token-123'', posted = False,
      postUrl = None, status = ''pending'', createdAt = 1000, updatedAt = 1000\<rparr>"

definition demoRandomHex :: string where
  \<comment> \<open>64 hexadecimal digits, as \<open>crypto.randomBytes(32).toString('hex')\<close> gives\<close>
  "demoRandomHex = ''9f86d081884c7d659a2feaa0c55ad015a3bf4f1b2b0b822cd15d6c15b0f00a08''"

definition demoAdmin :: string where
  "demoAdmin = ''0xf39Fd6e51aad88F6F4ce6aB8827279cffFb92266''"

definition demoOther :: string where
  "demoOther = ''0x70997970C51812dc3A010C7d01b50e0d17dc79C8''"

definition demoSubmission :: submission where
  "demoSubmission =
     \<lparr>req_name = Some ''John Doe'', req_email = Some ''JOHN@EX.COM'', req_walletAddress = None,
      req_roles = Some [''developer''], req_note = None, req_xHandle = None\<rparr>"

definition demoAlice :: entry where
  "demoAlice =
     \<lparr>oid = ''65a000000000000000000001'', name = ''Alice'', email = ''alice@ex.com'',
      walletAddress = None, roles = [''developer''], note' = None, xHandle = None,
      emailVerified = True, verificationToken = None, posted = False,
      postUrl = None, status = ''approved'', createdAt = 1000, updatedAt = 1500\<rparr>"

definition demoBob :: entry where
  "demoBob =
     \<lparr>oid = ''65a000000000000000000002'', name = ''Bob'', email = ''bob@ex.com'',
      walletAddress = None, roles = [''investor'', ''other''], note' = None, xHandle = None,
      emailVerified = True, verificationToken = None, posted = False,
      postUrl = None, status = ''approved'', createdAt = 1100, updatedAt = 1600\<rparr>"

definition demoAliceUpper :: string where
  \<comment> \<open>the identifier of \<open>demoAlice\<close>, its one letter in upper case\<close>
  "demoAliceUpper = ''65A000000000000000000001''"

definition demoRawUrl :: string where
  "demoRawUrl = ''https://x.com/alice/status/1234567890?s=20''"

definition demoPostUrl :: string where
  "demoPostUrl = ''https://x.com/alice/status/1234567890''"

definition storeInv :: "(string \<Rightarrow> objectId option) \<Rightarrow> store \<Rightarrow> bool" where
  \<comment> \<open>statuses of the enumeration, identifiers and e-mail addresses unique (the two unique
      indexes), a post URL on one entry at most, identifiers in the form the driver prints\<close>
  "storeInv cast s =
     (statusesValid s \<and> distinct (map oid s) \<and> distinct (map email s) \<and>
      postUrlUnique s \<and> idsCanonical cast s)"

text \<open>
  The stores that the handlers produce from the empty collection, one request after the
  other, with any request data, any clock, any random token and any behaviour of the mail
  provider. The identifier the driver generates for a new entry is in its printed form.
\<close>

inductive reachable :: "(string \<Rightarrow> objectId option) \<Rightarrow> store \<Rightarrow> bool"
  for cast :: "string \<Rightarrow> objectId option" where
  start: "reachable cast []"
| submit: "reachable cast s \<Longrightarrow> cast newId = Some newId \<Longrightarrow>
     reachable cast (fst (snd (route_POST_waitlist isAddress newId randomHex now b s)))"
| server_submit: "reachable cast s \<Longrightarrow> cast newId = Some newId \<Longrightarrow>
     reachable cast (fst (snd (server_submit isAddress newId randomHex now b s)))"
| verify: "reachable cast s \<Longrightarrow>
     reachable cast (snd (WaitlistController_verifyEmail now token s))"
| server_verify: "reachable cast s \<Longrightarrow>
     reachable cast (snd (server_verify_email now token s))"
| savePost: "reachable cast s \<Longrightarrow>
     reachable cast (snd (WaitlistController_savePost cast now userId rawUrl s))"
| resend: "reachable cast s \<Longrightarrow>
     reachable cast (fst (snd (AdminController_resendVerification cast randomHex send now ident s)))"
| server_resend: "reachable cast s \<Longrightarrow>
     reachable cast (fst (snd (server_resend_verification cast randomHex send now ident s)))"
| updateStatus: "reachable cast s \<Longrightarrow>
     reachable cast (snd (route_POST_admin_status cast now ident st s))"
| deleteEntry: "reachable cast s \<Longrightarrow>
     reachable cast (snd (AdminController_deleteEntry cast ident s))"

definition tokensOnlyUnverified :: "store \<Rightarrow> bool" where
  \<comment> \<open>the data model's invariant: a verified entry holds no verification token\<close>
  "tokensOnlyUnverified s = (\<forall>d\<in>set s. emailVerified d \<longrightarrow> verificationToken d = None)"

section \<open>Properties of the store primitives\<close>

lemma find_split:
  "find q s = Some e \<Longrightarrow> \<exists>pre post. s = pre @ e # post \<and> (\<forall>d\<in>set pre. \<not> q d) \<and> q e"
proof (induction s)
  case Nil
  then show ?case by simp
next
  case (Cons d ds)
  show ?case
  proof (cases "q d")
    case True
    with Cons.prems have "d = e" by simp
    with True have "d # ds = [] @ e # ds \<and> (\<forall>x\<in>set []. \<not> q x) \<and> q e" by simp
    then show ?thesis by blast
  next
    case False
    with Cons.prems have "find q ds = Some e" by simp
    from Cons.IH[OF this] obtain pre post
      where "ds = pre @ e # post" "\<forall>x\<in>set pre. \<not> q x" "q e" by blast
    with False have "d # ds = (d # pre) @ e # post \<and> (\<forall>x\<in>set (d # pre). \<not> q x) \<and> q e"
      by simp
    then show ?thesis by blast
  qed
qed

lemma updateOne_split:
  "(\<forall>d\<in>set pre. \<not> q d) \<Longrightarrow> q e \<Longrightarrow> updateOne q u (pre @ e # post) = pre @ u e # post"
  by (induction pre) auto

lemma find_append_miss:
  "(\<forall>d\<in>set pre. \<not> q d) \<Longrightarrow> find q (pre @ rest) = find q rest"
  by (induction pre) auto

lemma filter_single_find:
  "filter q s = [e] \<Longrightarrow> find q s = Some e"
proof (induction s)
  case Nil
  then show ?case by simp
next
  case (Cons d ds)
  then show ?case by (cases "q d") (auto simp: filter_empty_conv find_None_iff)
qed

lemma filter_single_rest:
  assumes "filter q (pre @ e # post) = [e]" and "\<forall>d\<in>set pre. \<not> q d" and "q e"
  shows "\<forall>d\<in>set post. \<not> q d"
proof -
  from assms(2) have "filter q pre = []" by (simp add: filter_empty_conv)
  with assms(1) have "filter q (e # post) = [e]" by simp
  with assms(3) have "filter q post = []" by simp
  then show ?thesis by (simp add: filter_empty_conv)
qed

lemma verify_store_after:
  assumes only: "filter (\<lambda>d. verificationToken d = Some token) s = [e]"
    and unv: "\<not> emailVerified e"
    and tok: "token \<noteq> []"
    and ids: "distinct (map oid s)"
  shows "find (\<lambda>d. verificationToken d = Some token)
           (snd (WaitlistController_verifyEmail now token s)) = None"
    and "find (\<lambda>d. verificationToken d = Some token)
           (snd (server_verify_email now token s)) = None"
proof -
  let ?q = "\<lambda>d. verificationToken d = Some token"
  have found: "WaitlistService_findByVerificationToken token s = Some e"
    using filter_single_find[OF only]
    by (simp add: WaitlistService_findByVerificationToken_def
        Waitlist_findByVerificationToken_def findOne_def)
  then have f: "find ?q s = Some e"
    by (simp add: WaitlistService_findByVerificationToken_def
        Waitlist_findByVerificationToken_def findOne_def)
  from find_split[OF f] obtain pre post
    where s: "s = pre @ e # post" and pre: "\<forall>d\<in>set pre. \<not> ?q d" and qe: "?q e"
    by blast
  from only s have "filter ?q (pre @ e # post) = [e]" by simp
  from filter_single_rest[OF this pre qe] have post: "\<forall>d\<in>set post. \<not> ?q d" .
  from ids s have pre_ids: "\<forall>d\<in>set pre. \<not> (oid d = oid e)" by (auto simp: image_iff)
  have u1: "updateOne ?q u (pre @ e # post) = pre @ u e # post" for u
    using pre qe by (rule updateOne_split)
  have u2: "updateOne (\<lambda>d. oid d = oid e) u (pre @ e # post) = pre @ u e # post" for u
    using pre_ids by (rule updateOne_split) simp
  have c: "snd (WaitlistController_verifyEmail now token s) =
              pre @ e\<lparr>emailVerified := True, status := ''approved'', verificationToken := None,
                       updatedAt := now\<rparr> # post"
    using found unv tok
    by (simp add: WaitlistController_verifyEmail_def WaitlistService_verifyEmail_def
        findOneAndUpdate_def s u1)
  have l: "snd (server_verify_email now token s) =
              pre @ e\<lparr>emailVerified := True, status := ''approved'', verificationToken := None,
                       updatedAt := now\<rparr> # post"
    using f unv
    by (simp add: server_verify_email_def findOne_def s u2)
  show "find ?q (snd (WaitlistController_verifyEmail now token s)) = None"
    using pre post by (auto simp: c find_None_iff)
  show "find ?q (snd (server_verify_email now token s)) = None"
    using pre post by (auto simp: l find_None_iff)
qed


section \<open>Verification: the first call, a second call, the token afterwards\<close>

text \<open>
  Claim C1. When the lookup by a token finds an entry that is not verified yet, the call
  replies 200 and the store changes in exactly one document, by one update of the store:
  that entry gets \<open>emailVerified = true\<close>, \<open>status = 'approved'\<close>, no verification token
  and \<open>updatedAt = now\<close>; all its other fields, and all other entries, stay as they were.
  This holds for the controller (whose store is the one the service's single
  \<open>findOneAndUpdate\<close> returns) and for the single-file server's route.
\<close>

theorem verifyEmail_first_success:
  assumes found: "WaitlistService_findByVerificationToken token s = Some e"
    and unv: "\<not> emailVerified e"
    and tok: "token \<noteq> []"
    and ids: "distinct (map oid s)"
  shows "\<exists>pre post.
           s = pre @ e # post \<and>
           verificationToken e = Some token \<and>
           WaitlistController_verifyEmail now token s =
             ((200, JObj [(''success'', JBool True),
                          (''message'', JStr ''Email verified successfully! Welcome to the HASHD waitlist.''),
                          (''email'', JStr (email e)),
                          (''userId'', JStr (oid e))]),
              pre @ e\<lparr>emailVerified := True, status := ''approved'', verificationToken := None,
                       updatedAt := now\<rparr> # post) \<and>
           snd (WaitlistController_verifyEmail now token s) =
             snd (WaitlistService_verifyEmail now token s) \<and>
           server_verify_email now token s =
             ((200, JObj [(''success'', JBool True),
                          (''message'', JStr ''Email verified successfully!'')]),
              pre @ e\<lparr>emailVerified := True, status := ''approved'', verificationToken := None,
                       updatedAt := now\<rparr> # post)"
proof -
  let ?q = "\<lambda>d. verificationToken d = Some token"
  from found have f: "find ?q s = Some e"
    by (simp add: WaitlistService_findByVerificationToken_def
        Waitlist_findByVerificationToken_def findOne_def)
  from find_split[OF f] obtain pre post
    where s: "s = pre @ e # post" and pre: "\<forall>d\<in>set pre. \<not> ?q d" and qe: "?q e"
    by blast
  from ids s have pre_ids: "\<forall>d\<in>set pre. \<not> (oid d = oid e)" by (auto simp: image_iff)
  have u1: "updateOne ?q u (pre @ e # post) = pre @ u e # post" for u
    using pre qe by (rule updateOne_split)
  have u2: "updateOne (\<lambda>d. oid d = oid e) u (pre @ e # post) = pre @ u e # post" for u
    using pre_ids by (rule updateOne_split) simp
  have c: "WaitlistController_verifyEmail now token s =
             ((200, JObj [(''success'', JBool True),
                          (''message'', JStr ''Email verified successfully! Welcome to the HASHD waitlist.''),
                          (''email'', JStr (email e)),
                          (''userId'', JStr (oid e))]),
              pre @ e\<lparr>emailVerified := True, status := ''approved'', verificationToken := None,
                       updatedAt := now\<rparr> # post)"
    using found unv tok
    by (simp add: WaitlistController_verifyEmail_def WaitlistService_verifyEmail_def
        findOneAndUpdate_def s u1)
  have l: "server_verify_email now token s =
             ((200, JObj [(''success'', JBool True),
                          (''message'', JStr ''Email verified successfully!'')]),
              pre @ e\<lparr>emailVerified := True, status := ''approved'', verificationToken := None,
                       updatedAt := now\<rparr> # post)"
    using f unv
    by (simp add: server_verify_email_def findOne_def s u2)
  have o: "snd (WaitlistController_verifyEmail now token s) =
             snd (WaitlistService_verifyEmail now token s)"
    using found unv tok by (simp add: WaitlistController_verifyEmail_def)
  from s qe c o l show ?thesis by blast
qed

theorem verifyEmail_first_success_witness:
  "WaitlistController_verifyEmail 2000 ''valid-token-123'' [demoEntry] =
     ((200, JObj [(''success'', JBool True),
                  (''message'', JStr ''Email verified successfully! Welcome to the HASHD waitlist.''),
                  (''email'', JStr ''john@ex.com''),
                  (''userId'', JStr ''507f1f77bcf86cd799439011'')]),
      [demoEntry\<lparr>emailVerified := True, status := ''approved'', verificationToken := None,
                 updatedAt := 2000\<rparr>])"
proof -
  have a: "WaitlistService_findByVerificationToken ''valid-token-123'' [demoEntry] = Some demoEntry"
    by (simp add: WaitlistService_findByVerificationToken_def
        Waitlist_findByVerificationToken_def findOne_def demoEntry_def)
  have b: "\<not> emailVerified demoEntry" by (simp add: demoEntry_def)
  have c: "''valid-token-123'' \<noteq> []" by simp
  have d: "distinct (map oid [demoEntry])" by simp
  from verifyEmail_first_success[OF a b c d, of 2000]
  obtain pre post where s: "[demoEntry] = pre @ demoEntry # post"
    and r: "WaitlistController_verifyEmail 2000 ''valid-token-123'' [demoEntry] =
             ((200, JObj [(''success'', JBool True),
                          (''message'', JStr ''Email verified successfully! Welcome to the HASHD waitlist.''),
                          (''email'', JStr (email demoEntry)),
                          (''userId'', JStr (oid demoEntry))]),
              pre @ demoEntry\<lparr>emailVerified := True, status := ''approved'', verificationToken := None,
                       updatedAt := 2000\<rparr> # post)"
    by blast
  from s have "pre = [] \<and> post = []" by (cases pre) auto
  with r show ?thesis by (simp add: demoEntry_def)
qed



text \<open>
  Claim C3. When exactly one entry holds the token and it is not verified yet, then in
  the store left by the first verification a lookup by that token finds no entry, through
  the service and through the query of the single-file server's route.
\<close>

theorem token_unrecoverable:
  assumes only: "filter (\<lambda>d. verificationToken d = Some token) s = [e]"
    and unv: "\<not> emailVerified e"
    and tok: "token \<noteq> []"
    and ids: "distinct (map oid s)"
  shows "WaitlistService_findByVerificationToken token
           (snd (WaitlistController_verifyEmail now token s)) = None \<and>
         findOne (\<lambda>d. verificationToken d = Some token)
           (snd (server_verify_email now token s)) = None"
  using verify_store_after[OF assms]
  by (simp add: WaitlistService_findByVerificationToken_def
      Waitlist_findByVerificationToken_def findOne_def)


theorem token_unrecoverable_witness:
  "WaitlistService_findByVerificationToken ''valid-token-123''
     (snd (WaitlistController_verifyEmail 2000 ''valid-token-123'' [demoEntry])) = None \<and>
   findOne (\<lambda>d. verificationToken d = Some ''valid-token-123'')
     (snd (server_verify_email 2000 ''valid-token-123'' [demoEntry])) = None"
proof -
  have a: "filter (\<lambda>d. verificationToken d = Some ''valid-token-123'') [demoEntry] = [demoEntry]"
    by (simp add: demoEntry_def)
  have b: "\<not> emailVerified demoEntry" by (simp add: demoEntry_def)
  have c: "''valid-token-123'' \<noteq> []" by simp
  have d: "distinct (map oid [demoEntry])" by simp
  from token_unrecoverable[OF a b c d] show ?thesis .
qed

text \<open>
  What a second call does in general. After a first verification with a token that exactly
  one entry held, a second call with the same token replies 404 (token not found) and
  leaves the store as it is, in the controller and in the single-file server's route. The
  reply carries \<open>alreadyVerified = true\<close> exactly when the lookup finds an entry whose
  \<open>emailVerified\<close> is already true.
\<close>

theorem verifyEmail_second_call:
  assumes only: "filter (\<lambda>d. verificationToken d = Some token) s = [e]"
    and unv: "\<not> emailVerified e"
    and tok: "token \<noteq> []"
    and ids: "distinct (map oid s)"
  shows "WaitlistController_verifyEmail now2 token (snd (WaitlistController_verifyEmail now1 token s)) =
           ((404, JObj [(''success'', JBool False),
                        (''message'', JStr ''Invalid or expired verification token'')]),
            snd (WaitlistController_verifyEmail now1 token s)) \<and>
         server_verify_email now2 token (snd (server_verify_email now1 token s)) =
           ((404, JObj [(''success'', JBool False),
                        (''message'', JStr ''Invalid or expired verification token'')]),
            snd (server_verify_email now1 token s)) \<and>
         ((field ''alreadyVerified'' (snd (fst (WaitlistController_verifyEmail now t s'))) = Some (JBool True))
            = (t \<noteq> [] \<and> (\<exists>d. WaitlistService_findByVerificationToken t s' = Some d \<and> emailVerified d)))"
proof -
  have a: "WaitlistController_verifyEmail now2 token (snd (WaitlistController_verifyEmail now1 token s)) =
           ((404, JObj [(''success'', JBool False),
                        (''message'', JStr ''Invalid or expired verification token'')]),
            snd (WaitlistController_verifyEmail now1 token s))"
    using verify_store_after(1)[OF assms, of now1] tok
    by (simp add: WaitlistController_verifyEmail_def[of now2] WaitlistService_findByVerificationToken_def
        Waitlist_findByVerificationToken_def findOne_def)
  have b: "server_verify_email now2 token (snd (server_verify_email now1 token s)) =
           ((404, JObj [(''success'', JBool False),
                        (''message'', JStr ''Invalid or expired verification token'')]),
            snd (server_verify_email now1 token s))"
    using verify_store_after(2)[OF assms, of now1]
    by (simp add: server_verify_email_def[of now2] findOne_def)
  have c: "(field ''alreadyVerified'' (snd (fst (WaitlistController_verifyEmail now t s'))) = Some (JBool True))
            = (t \<noteq> [] \<and> (\<exists>d. WaitlistService_findByVerificationToken t s' = Some d \<and> emailVerified d))"
    by (simp add: WaitlistController_verifyEmail_def field_def split: option.splits)
  from a b c show ?thesis by blast
qed

theorem verifyEmail_second_call_witness:
  "WaitlistController_verifyEmail 3000 ''valid-token-123''
     (snd (WaitlistController_verifyEmail 2000 ''valid-token-123'' [demoEntry])) =
     ((404, JObj [(''success'', JBool False),
                  (''message'', JStr ''Invalid or expired verification token'')]),
      snd (WaitlistController_verifyEmail 2000 ''valid-token-123'' [demoEntry])) \<and>
   server_verify_email 3000 ''valid-token-123''
     (snd (server_verify_email 2000 ''valid-token-123'' [demoEntry])) =
     ((404, JObj [(''success'', JBool False),
                  (''message'', JStr ''Invalid or expired verification token'')]),
      snd (server_verify_email 2000 ''valid-token-123'' [demoEntry]))"
proof -
  have a: "filter (\<lambda>d. verificationToken d = Some ''valid-token-123'') [demoEntry] = [demoEntry]"
    by (simp add: demoEntry_def)
  have b: "\<not> emailVerified demoEntry" by (simp add: demoEntry_def)
  have c: "''valid-token-123'' \<noteq> []" by simp
  have d: "distinct (map oid [demoEntry])" by simp
  from verifyEmail_second_call[OF a b c d, of 3000 2000] show ?thesis by blast
qed

text \<open>
  Claim C2 on the code. A token is valid: the first call verifies its entry and replies
  200. The second call with the same token does not reply 200 with
  \<open>alreadyVerified = true\<close>, as the branch ``already verified'' of both handlers is there
  to do: the first call has removed the token, the lookup finds no entry, and the reply is
  404, in the controller and in the single-file server's route.
\<close>

theorem verifyEmail_replay_refused:
  "fst (WaitlistController_verifyEmail 2000 ''valid-token-123'' [demoEntry]) =
     (200, JObj [(''success'', JBool True),
                 (''message'', JStr ''Email verified successfully! Welcome to the HASHD waitlist.''),
                 (''email'', JStr ''john@ex.com''),
                 (''userId'', JStr ''507f1f77bcf86cd799439011'')]) \<and>
   fst (WaitlistController_verifyEmail 3000 ''valid-token-123''
          (snd (WaitlistController_verifyEmail 2000 ''valid-token-123'' [demoEntry]))) =
     (404, JObj [(''success'', JBool False),
                 (''message'', JStr ''Invalid or expired verification token'')]) \<and>
   fst (server_verify_email 2000 ''valid-token-123'' [demoEntry]) =
     (200, JObj [(''success'', JBool True),
                 (''message'', JStr ''Email verified successfully!'')]) \<and>
   fst (server_verify_email 3000 ''valid-token-123''
          (snd (server_verify_email 2000 ''valid-token-123'' [demoEntry]))) =
     (404, JObj [(''success'', JBool False),
                 (''message'', JStr ''Invalid or expired verification token'')])"
  by (simp add: WaitlistController_verifyEmail_def WaitlistService_findByVerificationToken_def
      Waitlist_findByVerificationToken_def WaitlistService_verifyEmail_def findOne_def
      findOneAndUpdate_def server_verify_email_def demoEntry_def)

section \<open>Sending the verification e-mail again\<close>

text \<open>
  What the controller does with an entry it found: a verified entry is refused with 400;
  an unverified entry that holds a token keeps it, the store is not written and the mail
  carries that token; only an entry without a token gets the fresh one.
\<close>

lemma AdminController_resendVerification_cases:
  assumes "WaitlistService_findById cast ident s = Inr (Some e)"
  shows "(emailVerified e \<longrightarrow>
            AdminController_resendVerification cast randomHex send now ident s =
              ((400, JObj [(''success'', JBool False),
                           (''message'', JStr ''Email is already verified'')]), s, [])) \<and>
         (\<not> emailVerified e \<and> verificationToken e = Some t \<and> t \<noteq> [] \<longrightarrow>
            snd (AdminController_resendVerification cast randomHex send now ident s) =
              (s, [(email e, t, name e)])) \<and>
         (\<not> emailVerified e \<and> falsy (verificationToken e) \<longrightarrow>
            snd (AdminController_resendVerification cast randomHex send now ident s) =
              (updateOne (\<lambda>d. oid d = oid e)
                 (\<lambda>d. d\<lparr>verificationToken := Some randomHex, updatedAt := now\<rparr>) s,
               [(email e, randomHex, name e)]))"
  using assms
  by (auto simp: AdminController_resendVerification_def Let_def falsy_def split: option.splits)

text \<open>
  Claim C4 on the single-file server's route: it writes a fresh token over the one the
  unverified entry holds and mails the fresh one, so the token of a mail already sent no
  longer verifies. On the same input the controller keeps the token and does not write.
\<close>

theorem server_resend_regenerates:
  "server_resend_verification Some demoRandomHex (\<lambda>m. True) 2000 ''507f1f77bcf86cd799439011'' [demoEntry] =
     ((200, JObj [(''success'', JBool True),
                  (''message'', JStr ''Verification email resent successfully'')]),
      [demoEntry\<lparr>verificationToken := Some demoRandomHex, updatedAt := 2000\<rparr>],
      [(''john@ex.com'', demoRandomHex, ''John Doe'')]) \<and>
   verificationToken demoEntry = Some ''valid-token-123'' \<and>
   demoRandomHex \<noteq> ''valid-token-123'' \<and>
   AdminController_resendVerification Some demoRandomHex (\<lambda>m. True) 2000 ''507f1f77bcf86cd799439011'' [demoEntry] =
     ((200, JObj [(''success'', JBool True),
                  (''message'', JStr ''Verification email sent successfully'')]),
      [demoEntry],
      [(''john@ex.com'', ''valid-token-123'', ''John Doe'')])"
  by (simp add: server_resend_verification_def AdminController_resendVerification_def
      WaitlistService_findById_def Waitlist_findById_def findOne_def demoEntry_def
      demoRandomHex_def)

section \<open>Authentication of the administrator\<close>

text \<open>
  Claim C5. With the three credentials present and an address recovered: when the
  recovered address differs from the claimed one (both in lower case) the reply is 401;
  when they agree and an administrator address is configured that differs from it (in
  lower case) the reply is 403; and whenever the middleware lets a request pass, the
  claimed and the recovered address both equal the configured administrator address in
  lower case, which is the address handed on.
\<close>

theorem verifyWalletSignature_outcomes:
  "(w \<noteq> [] \<and> sg \<noteq> [] \<and> m \<noteq> [] \<and> verifyMessage m sg = Some r \<and>
      toLowerCase r \<noteq> toLowerCase w \<longrightarrow>
      verifyWalletSignature verifyMessage adminEnv (Some w) (Some sg) (Some m) =
        Inl (401, JObj [(''success'', JBool False), (''message'', JStr ''Invalid signature'')])) \<and>
   (w \<noteq> [] \<and> sg \<noteq> [] \<and> m \<noteq> [] \<and> verifyMessage m sg = Some r \<and>
      toLowerCase r = toLowerCase w \<and> adminEnv = Some admin \<and> admin \<noteq> [] \<and>
      toLowerCase r \<noteq> toLowerCase admin \<longrightarrow>
      verifyWalletSignature verifyMessage adminEnv (Some w) (Some sg) (Some m) =
        Inl (403, JObj [(''success'', JBool False),
                        (''message'', JStr ''Unauthorized: Admin access required'')])) \<and>
   (verifyWalletSignature verifyMessage' adminEnv' wallet signature message = Inr a \<longrightarrow>
      (\<exists>admin' w' sg' m' r'.
          adminEnv' = Some admin' \<and> wallet = Some w' \<and> signature = Some sg' \<and>
          message = Some m' \<and> verifyMessage' m' sg' = Some r' \<and>
          toLowerCase r' = toLowerCase admin' \<and> toLowerCase w' = toLowerCase admin' \<and>
          a = toLowerCase admin'))"
  by (auto simp: verifyWalletSignature_def falsy_def toLowerCase_def Let_def
      split: option.splits if_splits)

theorem verifyWalletSignature_outcomes_witness:
  "verifyWalletSignature (\<lambda>m sg. Some demoAdmin) (Some demoAdmin)
     (Some demoOther) (Some ''0xsig'') (Some ''Hashd Admin Authentication'') =
     Inl (401, JObj [(''success'', JBool False), (''message'', JStr ''Invalid signature'')]) \<and>
   verifyWalletSignature (\<lambda>m sg. Some demoOther) (Some demoAdmin)
     (Some (toLowerCase demoOther)) (Some ''0xsig'') (Some ''Hashd Admin Authentication'') =
     Inl (403, JObj [(''success'', JBool False),
                     (''message'', JStr ''Unauthorized: Admin access required'')]) \<and>
   verifyWalletSignature (\<lambda>m sg. Some demoAdmin) (Some (toLowerCase demoAdmin))
     (Some demoAdmin) (Some ''0xsig'') (Some ''Hashd Admin Authentication'') =
     Inr ''0xf39fd6e51aad88f6f4ce6ab8827279cfffb92266''"
proof -
  have a: "toLowerCase demoAdmin \<noteq> toLowerCase demoOther"
    by (simp add: demoAdmin_def demoOther_def toLowerCase_def lowerChar_def)
  have b: "demoOther \<noteq> [] \<and> demoAdmin \<noteq> []"
    by (simp add: demoAdmin_def demoOther_def)
  have c: "toLowerCase (toLowerCase demoOther) = toLowerCase demoOther"
    by (simp add: demoOther_def toLowerCase_def lowerChar_def)
  have d: "toLowerCase demoOther \<noteq> []"
    by (simp add: demoOther_def toLowerCase_def)
  have one: "verifyWalletSignature (\<lambda>m sg. Some demoAdmin) (Some demoAdmin)
     (Some demoOther) (Some ''0xsig'') (Some ''Hashd Admin Authentication'') =
     Inl (401, JObj [(''success'', JBool False), (''message'', JStr ''Invalid signature'')])"
    using verifyWalletSignature_outcomes[where w = demoOther and sg = "''0xsig''"
        and m = "''Hashd Admin Authentication''" and verifyMessage = "\<lambda>m sg. Some demoAdmin"
        and r = demoAdmin and adminEnv = "Some demoAdmin"] a b
    by simp
  have two: "verifyWalletSignature (\<lambda>m sg. Some demoOther) (Some demoAdmin)
     (Some (toLowerCase demoOther)) (Some ''0xsig'') (Some ''Hashd Admin Authentication'') =
     Inl (403, JObj [(''success'', JBool False),
                     (''message'', JStr ''Unauthorized: Admin access required'')])"
    using verifyWalletSignature_outcomes[where w = "toLowerCase demoOther" and sg = "''0xsig''"
        and m = "''Hashd Admin Authentication''" and verifyMessage = "\<lambda>m sg. Some demoOther"
        and r = demoOther and adminEnv = "Some demoAdmin" and admin = demoAdmin] a b c d
    by simp
  have three: "verifyWalletSignature (\<lambda>m sg. Some demoAdmin) (Some (toLowerCase demoAdmin))
     (Some demoAdmin) (Some ''0xsig'') (Some ''Hashd Admin Authentication'') =
     Inr ''0xf39fd6e51aad88f6f4ce6ab8827279cfffb92266''"
    by (simp add: verifyWalletSignature_def falsy_def demoAdmin_def toLowerCase_def lowerChar_def)
  from one two three show ?thesis by blast
qed

text \<open>The middleware of the single-file server decides alike; without a configured
  administrator address it refuses everyone with 403.\<close>

lemma server_verifyWalletSignature_outcomes:
  "(w \<noteq> [] \<and> sg \<noteq> [] \<and> m \<noteq> [] \<and> verifyMessage m sg = Some r \<and>
      toLowerCase r \<noteq> toLowerCase w \<longrightarrow>
      server_verifyWalletSignature verifyMessage adminEnv (Some w) (Some sg) (Some m) =
        Inl (401, JObj [(''success'', JBool False), (''message'', JStr ''Invalid signature'')])) \<and>
   (w \<noteq> [] \<and> sg \<noteq> [] \<and> m \<noteq> [] \<and> verifyMessage m sg = Some r \<and>
      toLowerCase r = toLowerCase w \<and> Some (toLowerCase r) \<noteq> map_option toLowerCase adminEnv \<longrightarrow>
      server_verifyWalletSignature verifyMessage adminEnv (Some w) (Some sg) (Some m) =
        Inl (403, JObj [(''success'', JBool False),
                        (''message'', JStr ''Unauthorized: Admin access only'')])) \<and>
   (server_verifyWalletSignature verifyMessage' adminEnv' wallet signature message = Inr a \<longrightarrow>
      (\<exists>admin' w' sg' m' r'.
          adminEnv' = Some admin' \<and> wallet = Some w' \<and> signature = Some sg' \<and>
          message = Some m' \<and> verifyMessage' m' sg' = Some r' \<and>
          toLowerCase r' = toLowerCase admin' \<and> toLowerCase w' = toLowerCase admin' \<and>
          a = toLowerCase admin'))"
  by (cases adminEnv'; cases adminEnv)
     (auto simp: server_verifyWalletSignature_def falsy_def split: option.splits if_splits)

section \<open>Statistics\<close>

lemma count_status:
  "\<forall>d\<in>set s. validStatus (status d) \<Longrightarrow>
   length (filter (\<lambda>d. status d = ''pending'') s) +
   length (filter (\<lambda>d. status d = ''approved'') s) +
   length (filter (\<lambda>d. status d = ''rejected'') s) = length s"
  by (induction s) (auto simp: validStatus_def validStatuses_def)

text \<open>
  Claim C7. In every store whose entries carry a status of the schema's enumeration
  (pending, approved, rejected), the statistics satisfy
  \<open>verified + unverified = total\<close> and \<open>pending + approved + rejected = total\<close>.
\<close>

theorem getStatistics_consistent:
  assumes "\<forall>d\<in>set s. validStatus (status d)"
  shows "verified (WaitlistService_getStatistics s) + unverified (WaitlistService_getStatistics s) =
           total (WaitlistService_getStatistics s) \<and>
         pending (WaitlistService_getStatistics s) + approved (WaitlistService_getStatistics s) +
           rejected (WaitlistService_getStatistics s) = total (WaitlistService_getStatistics s)"
proof -
  have "int (length (filter (\<lambda>d. status d = ''pending'') s)) +
        int (length (filter (\<lambda>d. status d = ''approved'') s)) +
        int (length (filter (\<lambda>d. status d = ''rejected'') s)) = int (length s)"
    using count_status[OF assms] by linarith
  then show ?thesis
    by (simp add: WaitlistService_getStatistics_def Waitlist_getStatistics_def Let_def
        countDocuments_def)
qed

theorem getStatistics_consistent_witness:
  "WaitlistService_getStatistics [demoEntry, demoAlice, demoBob\<lparr>status := ''rejected''\<rparr>] =
     \<lparr>total = 3, verified = 2, pending = 1, approved = 1, rejected = 1, unverified = 1\<rparr> \<and>
   verified (WaitlistService_getStatistics [demoEntry, demoAlice, demoBob\<lparr>status := ''rejected''\<rparr>]) +
   unverified (WaitlistService_getStatistics [demoEntry, demoAlice, demoBob\<lparr>status := ''rejected''\<rparr>]) =
   total (WaitlistService_getStatistics [demoEntry, demoAlice, demoBob\<lparr>status := ''rejected''\<rparr>]) \<and>
   pending (WaitlistService_getStatistics [demoEntry, demoAlice, demoBob\<lparr>status := ''rejected''\<rparr>]) +
   approved (WaitlistService_getStatistics [demoEntry, demoAlice, demoBob\<lparr>status := ''rejected''\<rparr>]) +
   rejected (WaitlistService_getStatistics [demoEntry, demoAlice, demoBob\<lparr>status := ''rejected''\<rparr>]) =
   total (WaitlistService_getStatistics [demoEntry, demoAlice, demoBob\<lparr>status := ''rejected''\<rparr>])"
proof -
  have v: "\<forall>d\<in>set [demoEntry, demoAlice, demoBob\<lparr>status := ''rejected''\<rparr>].
             validStatus (status d)"
    by (simp add: validStatus_def validStatuses_def demoEntry_def demoAlice_def demoBob_def)
  have e: "WaitlistService_getStatistics [demoEntry, demoAlice, demoBob\<lparr>status := ''rejected''\<rparr>] =
     \<lparr>total = 3, verified = 2, pending = 1, approved = 1, rejected = 1, unverified = 1\<rparr>"
    by (simp add: WaitlistService_getStatistics_def Waitlist_getStatistics_def Let_def
        countDocuments_def demoEntry_def demoAlice_def demoBob_def)
  from getStatistics_consistent[OF v] have c:
    "verified (WaitlistService_getStatistics [demoEntry, demoAlice, demoBob\<lparr>status := ''rejected''\<rparr>]) +
     unverified (WaitlistService_getStatistics [demoEntry, demoAlice, demoBob\<lparr>status := ''rejected''\<rparr>]) =
     total (WaitlistService_getStatistics [demoEntry, demoAlice, demoBob\<lparr>status := ''rejected''\<rparr>]) \<and>
     pending (WaitlistService_getStatistics [demoEntry, demoAlice, demoBob\<lparr>status := ''rejected''\<rparr>]) +
     approved (WaitlistService_getStatistics [demoEntry, demoAlice, demoBob\<lparr>status := ''rejected''\<rparr>]) +
     rejected (WaitlistService_getStatistics [demoEntry, demoAlice, demoBob\<lparr>status := ''rejected''\<rparr>]) =
     total (WaitlistService_getStatistics [demoEntry, demoAlice, demoBob\<lparr>status := ''rejected''\<rparr>])" .
  show ?thesis by (rule conjI[OF e c])
qed

section \<open>Two submissions with the same e-mail address up to letter case\<close>

lemma submit_201_store:
  assumes "route_POST_waitlist isAddress newId randomHex now b s = ((201, body), s1, mails)"
  shows "s1 = s @ [(WaitlistService_newEntry newId randomHex now b)\<lparr>updatedAt := now\<rparr>]"
  using assms
  by (auto simp: route_POST_waitlist_def validateWaitlistSubmission_def
      WaitlistController_submit_def WaitlistService_createEntry_def Waitlist_save_def
      insertOne_def Let_def
      split: option.splits if_splits sum.splits)

lemma demoSubmission_first:
  "route_POST_waitlist (\<lambda>a. True) ''507f1f77bcf86cd799439011'' ''valid-token-123'' 1000
     demoSubmission [] =
     ((201, JObj [(''success'', JBool True),
                  (''message'', JStr ''Successfully joined the waitlist. Please check your email to verify your address.''),
                  (''id'', JStr ''507f1f77bcf86cd799439011'')]),
      [demoEntry],
      [(''john@ex.com'', ''valid-token-123'', ''John Doe'')])"
  by (simp add: route_POST_waitlist_def validateWaitlistSubmission_def
      WaitlistController_submit_def WaitlistService_createEntry_def Waitlist_save_def
      insertOne_def Let_def WaitlistService_newEntry_def Waitlist_validate_def
      demoSubmission_def demoEntry_def falsy_def EMAIL_REGEX_def isSpace_def validRoles_def
      trim_def toLowerCase_def lowerChar_def validStatus_def validStatuses_def)

text \<open>
  Claim C6. When a submission was accepted (201) and a second one carries an e-mail
  address that differs from the first one's in letter case only, the second submission,
  if it passes the validation middleware and the schema's validators, is answered 409
  ``This email is already on the waitlist'': both addresses are stored in lower case, the
  unique index on \<open>email\<close> refuses the insert with error 11000, and the controller turns
  that error into 409. The store is left as it was and no mail is sent.
\<close>

theorem duplicate_email_case_insensitive:
  assumes first: "route_POST_waitlist isAddress id1 tok1 now1 b1 s = ((201, body1), s1, mails1)"
    and e1: "req_email b1 = Some e1"
    and e2: "req_email b2 = Some e2"
    and same: "toLowerCase e1 = toLowerCase e2"
    and valid2: "validateWaitlistSubmission isAddress b2 = None"
    and schema2: "Waitlist_validate (WaitlistService_newEntry id2 tok2 now2 b2)"
  shows "route_POST_waitlist isAddress id2 tok2 now2 b2 s1 =
           ((409, JObj [(''success'', JBool False),
                        (''message'', JStr ''This email is already on the waitlist'')]), s1, [])"
proof -
  have s1: "s1 = s @ [(WaitlistService_newEntry id1 tok1 now1 b1)\<lparr>updatedAt := now1\<rparr>]"
    using first by (rule submit_201_store)
  have "email (WaitlistService_newEntry id2 tok2 now2 b2) =
        email (WaitlistService_newEntry id1 tok1 now1 b1)"
    using e1 e2 same by (simp add: WaitlistService_newEntry_def)
  then have dup: "email ((WaitlistService_newEntry id2 tok2 now2 b2)\<lparr>updatedAt := now2\<rparr>)
                    \<in> set (map email s1)"
    by (simp add: s1)
  have "Waitlist_save now2 (WaitlistService_newEntry id2 tok2 now2 b2) s1 = Inl DuplicateKey"
    using schema2 dup by (simp add: Waitlist_save_def insertOne_def)
  then have "WaitlistService_createEntry id2 tok2 now2 b2 s1 = Inl DuplicateKey"
    using e2 by (simp add: WaitlistService_createEntry_def)
  then show ?thesis
    using valid2
    by (simp add: route_POST_waitlist_def WaitlistController_submit_def code_def)
qed

theorem duplicate_email_case_insensitive_witness:
  "route_POST_waitlist (\<lambda>a. True) ''65a000000000000000000009'' demoRandomHex 3000
     (demoSubmission\<lparr>req_email := Some ''John@Ex.Com''\<rparr>) [demoEntry] =
     ((409, JObj [(''success'', JBool False),
                  (''message'', JStr ''This email is already on the waitlist'')]),
      [demoEntry], [])"
proof -
  have e1: "req_email demoSubmission = Some ''JOHN@EX.COM''"
    by (simp add: demoSubmission_def)
  have e2: "req_email (demoSubmission\<lparr>req_email := Some ''John@Ex.Com''\<rparr>) = Some ''John@Ex.Com''"
    by simp
  have same: "toLowerCase ''JOHN@EX.COM'' = toLowerCase ''John@Ex.Com''"
    by (simp add: toLowerCase_def lowerChar_def)
  have valid2: "validateWaitlistSubmission (\<lambda>a. True)
                  (demoSubmission\<lparr>req_email := Some ''John@Ex.Com''\<rparr>) = None"
    by (simp add: validateWaitlistSubmission_def demoSubmission_def falsy_def EMAIL_REGEX_def
        isSpace_def validRoles_def Let_def)
  have schema2: "Waitlist_validate (WaitlistService_newEntry ''65a000000000000000000009''
                   demoRandomHex 3000 (demoSubmission\<lparr>req_email := Some ''John@Ex.Com''\<rparr>))"
    by (simp add: WaitlistService_newEntry_def Waitlist_validate_def demoSubmission_def
        falsy_def EMAIL_REGEX_def isSpace_def validRoles_def trim_def toLowerCase_def
        lowerChar_def validStatus_def validStatuses_def Let_def)
  from duplicate_email_case_insensitive[OF demoSubmission_first e1 e2 same valid2 schema2]
  show ?thesis .
qed

text \<open>The single-file server's route answers alike: its object literal folds the address
  to lower case and the same unique index refuses the insert.\<close>

lemma server_submit_201_store:
  assumes "server_submit isAddress newId randomHex now b s = ((201, body), s1, mails)"
  shows "s1 = s @ [server_newEntry newId randomHex now b]"
  using assms
  by (simp add: server_submit_def insertOne_def split: if_splits sum.splits)

lemma server_submit_duplicate:
  assumes first: "server_submit isAddress id1 tok1 now1 b1 s = ((201, body1), s1, mails1)"
    and e1: "req_email b1 = Some e1"
    and e2: "req_email b2 = Some e2"
    and same: "toLowerCase e1 = toLowerCase e2"
    and req2: "\<not> falsy (req_name b2)" "req_roles b2 = Some rs" "rs \<noteq> []"
    and mail2: "EMAIL_REGEX e2"
    and wallet2: "falsy (req_walletAddress b2) \<or> isAddress (the (req_walletAddress b2))"
  shows "server_submit isAddress id2 tok2 now2 b2 s1 =
           ((409, JObj [(''success'', JBool False),
                        (''message'', JStr ''This email is already on the waitlist'')]), s1, [])"
proof -
  have s1: "s1 = s @ [server_newEntry id1 tok1 now1 b1]"
    using first by (rule server_submit_201_store)
  have "email (server_newEntry id2 tok2 now2 b2) = email (server_newEntry id1 tok1 now1 b1)"
    using e1 e2 same by (simp add: server_newEntry_def)
  then have "email (server_newEntry id2 tok2 now2 b2) \<in> set (map email s1)"
    by (simp add: s1)
  then have "insertOne (server_newEntry id2 tok2 now2 b2) s1 = Inl DuplicateKey"
    by (simp add: insertOne_def)
  moreover have "\<not> falsy (req_email b2)"
    using e2 mail2 by (auto simp: falsy_def EMAIL_REGEX_def)
  ultimately show ?thesis
    using req2 e2 mail2 wallet2
    by (simp add: server_submit_def code_def)
qed

section \<open>Recording the URL of a post\<close>

lemma find_Some_mem: "find q s = Some x \<Longrightarrow> x \<in> set s \<and> q x"
  by (induction s) (auto split: if_splits)

lemma find_exists: "d \<in> set s \<Longrightarrow> q d \<Longrightarrow> \<exists>x. find q s = Some x"
  by (induction s) auto

lemma postUrlRegex_nonempty: "postUrlRegex rawUrl = Some g \<Longrightarrow> rawUrl \<noteq> []"
  by (auto simp: postUrlRegex_def)

lemma savePost_check_found:
  assumes found: "WaitlistService_findById cast userId s = Inr (Some e)"
    and ver: "emailVerified e"
    and url: "postUrlRegex rawUrl = Some (domain, username, tweetId)"
    and uid: "userId \<noteq> []"
    and u: "u = ''https://'' @ domain @ ''/'' @ username @ ''/status/'' @ tweetId"
  shows "savePost_check cast (Some userId) (Some rawUrl) s =
           (case find (\<lambda>d. postUrl d = Some u) s of
              None \<Rightarrow> Inr (e, u)
            | Some existingPost \<Rightarrow>
                if oid existingPost \<noteq> userId then
                  Inl (400, JObj [(''success'', JBool False),
                                  (''message'', JStr ''This post has already been used by another user. Please create a new post.'')])
                else Inr (e, u))"
proof -
  from url have raw: "rawUrl \<noteq> []" by (rule postUrlRegex_nonempty)
  show ?thesis
    unfolding u savePost_check_def
    using found ver url uid raw
    by (simp add: falsy_def WaitlistService_findByPostUrl_def findOne_def Let_def split: option.splits)
qed

lemma savePost_refuses_other:
  assumes chk: "savePost_check cast (Some userId) (Some rawUrl) s =
           (case find (\<lambda>d. postUrl d = Some u) s of
              None \<Rightarrow> Inr (e, u)
            | Some existingPost \<Rightarrow>
                if oid existingPost \<noteq> userId then Inl reply else Inr (e, u))"
    and uniq: "postUrlUnique s"
    and other: "\<exists>d\<in>set s. postUrl d = Some u \<and> oid d \<noteq> userId"
  shows "WaitlistController_savePost cast now (Some userId) (Some rawUrl) s = (reply, s)"
proof -
  let ?q = "\<lambda>d. postUrl d = Some u"
  from other obtain d where d: "d \<in> set s" "?q d" "oid d \<noteq> userId" by blast
  from find_exists[of d s ?q] d obtain x where x: "find ?q s = Some x" by blast
  from find_Some_mem[OF x] have xs: "x \<in> set s" "?q x" by simp_all
  from uniq d(1) xs(1) d(2) xs(2) have "oid x = oid d"
    unfolding postUrlUnique_def by (metis option.distinct(1))
  with d have "oid x \<noteq> userId" by simp
  with x chk show ?thesis
    by (simp add: WaitlistController_savePost_def)
qed

lemma savePost_accepts_owner:
  assumes chk: "savePost_check cast (Some userId) (Some rawUrl) s =
           (case find (\<lambda>d. postUrl d = Some u) s of
              None \<Rightarrow> Inr (e, u)
            | Some existingPost \<Rightarrow>
                if oid existingPost \<noteq> userId then Inl reply else Inr (e, u))"
    and found: "WaitlistService_findById cast userId s = Inr (Some e)"
    and uniq: "postUrlUnique s"
    and own: "postUrl e = Some u" "oid e = userId"
  shows "\<exists>pre post. s = pre @ e # post \<and>
           WaitlistController_savePost cast now (Some userId) (Some rawUrl) s =
             ((200, JObj [(''success'', JBool True),
                          (''message'', JStr ''Post URL saved successfully! We will verify it automatically nearer to launch.'')]),
              pre @ e\<lparr>posted := True, postUrl := Some u, updatedAt := now\<rparr> # post)"
proof -
  let ?q = "\<lambda>d. postUrl d = Some u"
  from found obtain i where fi: "find (\<lambda>d. oid d = i) s = Some e"
    by (auto simp: WaitlistService_findById_def Waitlist_findById_def findOne_def
        split: option.splits)
  from find_split[OF fi] obtain pre post
    where s: "s = pre @ e # post" and pre: "\<forall>d\<in>set pre. \<not> oid d = i" and ie: "oid e = i"
    by blast
  from find_Some_mem[OF fi] have es: "e \<in> set s" by simp
  from find_exists[of e s ?q] es own obtain x where x: "find ?q s = Some x" by blast
  from find_Some_mem[OF x] have xs: "x \<in> set s" "?q x" by simp_all
  from uniq es xs(1) own(1) xs(2) have "oid e = oid x"
    unfolding postUrlUnique_def by (metis option.distinct(1))
  with own have ox: "oid x = userId" by simp
  from chk x ox have c: "savePost_check cast (Some userId) (Some rawUrl) s = Inr (e, u)"
    by simp
  have upd: "updateOne (\<lambda>d. oid d = oid e) f (pre @ e # post) = pre @ f e # post" for f
    using pre ie by (intro updateOne_split) auto
  have "WaitlistController_savePost cast now (Some userId) (Some rawUrl) s =
             ((200, JObj [(''success'', JBool True),
                          (''message'', JStr ''Post URL saved successfully! We will verify it automatically nearer to launch.'')]),
              pre @ e\<lparr>posted := True, postUrl := Some u, updatedAt := now\<rparr> # post)"
    unfolding WaitlistController_savePost_def c
    by (simp add: savePost_write_def WaitlistService_updatePostStatus_def
        findOneAndUpdate_def s upd)
  with s show ?thesis by (intro exI[of _ pre] exI[of _ post] conjI)
qed

text \<open>
  What the handler does where its comparison of identifiers is sound. For a verified entry
  found under \<open>userId\<close> and a raw URL of the recognised shape, in a store where a post URL
  is attached to one entry at most: when the canonical URL is stored on an entry whose
  identifier is not \<open>userId\<close>, the reply is 400 ``This post has already been used by
  another user'' and the store is left as it was; when the entry itself holds the
  canonical URL and \<open>userId\<close> is its identifier as the store prints it, the reply is 200
  and the entry is written again with the same URL.
\<close>

theorem savePost_owner_and_others:
  assumes found: "WaitlistService_findById cast userId s = Inr (Some e)"
    and ver: "emailVerified e"
    and url: "postUrlRegex rawUrl = Some (domain, username, tweetId)"
    and uid: "userId \<noteq> []"
    and uniq: "postUrlUnique s"
  shows "((\<exists>d\<in>set s. postUrl d = Some (''https://'' @ domain @ ''/'' @ username @ ''/status/'' @ tweetId)
                    \<and> oid d \<noteq> userId) \<longrightarrow>
            WaitlistController_savePost cast now (Some userId) (Some rawUrl) s =
              ((400, JObj [(''success'', JBool False),
                           (''message'', JStr ''This post has already been used by another user. Please create a new post.'')]),
               s)) \<and>
         (postUrl e = Some (''https://'' @ domain @ ''/'' @ username @ ''/status/'' @ tweetId)
            \<and> oid e = userId \<longrightarrow>
            (\<exists>pre post. s = pre @ e # post \<and>
               WaitlistController_savePost cast now (Some userId) (Some rawUrl) s =
                 ((200, JObj [(''success'', JBool True),
                              (''message'', JStr ''Post URL saved successfully! We will verify it automatically nearer to launch.'')]),
                  pre @ e\<lparr>posted := True,
                           postUrl := Some (''https://'' @ domain @ ''/'' @ username @ ''/status/'' @ tweetId),
                           updatedAt := now\<rparr> # post)))"
proof -
  define u where "u = ''https://'' @ domain @ ''/'' @ username @ ''/status/'' @ tweetId"
  note chk = savePost_check_found[OF found ver url uid u_def]
  have A: "(\<exists>d\<in>set s. postUrl d = Some u \<and> oid d \<noteq> userId) \<longrightarrow>
            WaitlistController_savePost cast now (Some userId) (Some rawUrl) s =
              ((400, JObj [(''success'', JBool False),
                           (''message'', JStr ''This post has already been used by another user. Please create a new post.'')]),
               s)"
    using savePost_refuses_other[OF chk uniq] by (rule impI)
  have B: "postUrl e = Some u \<and> oid e = userId \<longrightarrow>
            (\<exists>pre post. s = pre @ e # post \<and>
               WaitlistController_savePost cast now (Some userId) (Some rawUrl) s =
                 ((200, JObj [(''success'', JBool True),
                              (''message'', JStr ''Post URL saved successfully! We will verify it automatically nearer to launch.'')]),
                  pre @ e\<lparr>posted := True, postUrl := Some u, updatedAt := now\<rparr> # post))"
  proof
    assume "postUrl e = Some u \<and> oid e = userId"
    then have "postUrl e = Some u" and "oid e = userId" by simp_all
    then show "\<exists>pre post. s = pre @ e # post \<and>
               WaitlistController_savePost cast now (Some userId) (Some rawUrl) s =
                 ((200, JObj [(''success'', JBool True),
                              (''message'', JStr ''Post URL saved successfully! We will verify it automatically nearer to launch.'')]),
                  pre @ e\<lparr>posted := True, postUrl := Some u, updatedAt := now\<rparr> # post)"
      by (rule savePost_accepts_owner[OF chk found uniq])
  qed
  from A B show ?thesis unfolding u_def by (rule conjI)
qed

theorem savePost_owner_and_others_witness:
  "WaitlistController_savePost Some 5000 (Some ''65a000000000000000000002'') (Some demoRawUrl)
     [demoAlice\<lparr>posted := True, postUrl := Some demoPostUrl\<rparr>, demoBob] =
     ((400, JObj [(''success'', JBool False),
                  (''message'', JStr ''This post has already been used by another user. Please create a new post.'')]),
      [demoAlice\<lparr>posted := True, postUrl := Some demoPostUrl\<rparr>, demoBob]) \<and>
   WaitlistController_savePost Some 5000 (Some ''65a000000000000000000001'') (Some demoRawUrl)
     [demoAlice\<lparr>posted := True, postUrl := Some demoPostUrl\<rparr>, demoBob] =
     ((200, JObj [(''success'', JBool True),
                  (''message'', JStr ''Post URL saved successfully! We will verify it automatically nearer to launch.'')]),
      [demoAlice\<lparr>posted := True, postUrl := Some demoPostUrl, updatedAt := 5000\<rparr>, demoBob])"
proof -
  let ?a = "demoAlice\<lparr>posted := True, postUrl := Some demoPostUrl\<rparr>"
  let ?s = "[?a, demoBob]"
  have fb: "WaitlistService_findById Some ''65a000000000000000000002'' ?s = Inr (Some demoBob)"
    by (simp add: WaitlistService_findById_def Waitlist_findById_def findOne_def
        demoAlice_def demoBob_def)
  have fa: "WaitlistService_findById Some ''65a000000000000000000001'' ?s = Inr (Some ?a)"
    by (simp add: WaitlistService_findById_def Waitlist_findById_def findOne_def
        demoAlice_def demoBob_def)
  have vb: "emailVerified demoBob" by (simp add: demoBob_def)
  have va: "emailVerified ?a" by (simp add: demoAlice_def)
  have url: "postUrlRegex demoRawUrl = Some (''x.com'', ''alice'', ''1234567890'')"
    by (simp add: postUrlRegex_def demoRawUrl_def isWordChar_def isDigit_def Let_def)
  have ub: "''65a000000000000000000002'' \<noteq> []" and ua: "''65a000000000000000000001'' \<noteq> []"
    by simp_all
  have uniq: "postUrlUnique ?s"
    by (simp add: postUrlUnique_def demoAlice_def demoBob_def)
  have canon: "''https://'' @ ''x.com'' @ ''/'' @ ''alice'' @ ''/status/'' @ ''1234567890'' = demoPostUrl"
    by (simp add: demoPostUrl_def)
  have other: "\<exists>d\<in>set ?s. postUrl d = Some demoPostUrl \<and> oid d \<noteq> ''65a000000000000000000002''"
    by (simp add: demoAlice_def)
  have own: "postUrl ?a = Some demoPostUrl \<and> oid ?a = ''65a000000000000000000001''"
    by (simp add: demoAlice_def)
  have one: "WaitlistController_savePost Some 5000 (Some ''65a000000000000000000002'') (Some demoRawUrl) ?s =
     ((400, JObj [(''success'', JBool False),
                  (''message'', JStr ''This post has already been used by another user. Please create a new post.'')]),
      ?s)"
    using savePost_owner_and_others[OF fb vb url ub uniq, of 5000, unfolded canon,
        THEN conjunct1, THEN mp, OF other] .
  from savePost_owner_and_others[OF fa va url ua uniq, of 5000, unfolded canon,
      THEN conjunct2, THEN mp, OF own]
  obtain pre post where s: "?s = pre @ ?a # post"
    and r: "WaitlistController_savePost Some 5000 (Some ''65a000000000000000000001'') (Some demoRawUrl) ?s =
                 ((200, JObj [(''success'', JBool True),
                              (''message'', JStr ''Post URL saved successfully! We will verify it automatically nearer to launch.'')]),
                  pre @ ?a\<lparr>posted := True, postUrl := Some demoPostUrl, updatedAt := 5000\<rparr> # post)"
    by (elim exE conjE)
  have ne: "demoBob \<noteq> ?a" by (simp add: demoAlice_def demoBob_def)
  from s ne have "pre = [] \<and> post = [demoBob]"
    by (cases pre) (auto simp: Cons_eq_append_conv)
  with r have two: "WaitlistController_savePost Some 5000 (Some ''65a000000000000000000001'') (Some demoRawUrl) ?s =
     ((200, JObj [(''success'', JBool True),
                  (''message'', JStr ''Post URL saved successfully! We will verify it automatically nearer to launch.'')]),
      [demoAlice\<lparr>posted := True, postUrl := Some demoPostUrl, updatedAt := 5000\<rparr>, demoBob])"
    by simp
  show ?thesis by (rule conjI[OF one two])
qed

text \<open>
  Claim C8 on the code. The handler finds the entry by the identifier that the driver casts
  from \<open>userId\<close>, but tells the owner from another user by comparing the printed
  identifier of the URL's holder with the raw \<open>userId\<close>. A client sends the identifier of
  its verified entry with a letter in upper case: the first request stores the URL with
  200; the same request again, by the entry that now owns the URL, is refused with 400
  ``This post has already been used by another user''. Sent in the printed form, the
  second request is accepted. The owner is refused as well in a store that holds the URL
  on two entries, which two concurrent requests leave behind: the lookup by URL returns
  the first holder only.
\<close>

theorem savePost_owner_refused:
  "WaitlistController_savePost castObjectId 2000 (Some demoAliceUpper) (Some demoRawUrl)
     [demoAlice, demoBob] =
     ((200, JObj [(''success'', JBool True),
                  (''message'', JStr ''Post URL saved successfully! We will verify it automatically nearer to launch.'')]),
      [demoAlice\<lparr>posted := True, postUrl := Some demoPostUrl, updatedAt := 2000\<rparr>, demoBob]) \<and>
   WaitlistController_savePost castObjectId 2001 (Some demoAliceUpper) (Some demoRawUrl)
     [demoAlice\<lparr>posted := True, postUrl := Some demoPostUrl, updatedAt := 2000\<rparr>, demoBob] =
     ((400, JObj [(''success'', JBool False),
                  (''message'', JStr ''This post has already been used by another user. Please create a new post.'')]),
      [demoAlice\<lparr>posted := True, postUrl := Some demoPostUrl, updatedAt := 2000\<rparr>, demoBob]) \<and>
   castObjectId demoAliceUpper = Some (oid demoAlice) \<and>
   WaitlistController_savePost castObjectId 2001 (Some (oid demoAlice)) (Some demoRawUrl)
     [demoAlice\<lparr>posted := True, postUrl := Some demoPostUrl, updatedAt := 2000\<rparr>, demoBob] =
     ((200, JObj [(''success'', JBool True),
                  (''message'', JStr ''Post URL saved successfully! We will verify it automatically nearer to launch.'')]),
      [demoAlice\<lparr>posted := True, postUrl := Some demoPostUrl, updatedAt := 2001\<rparr>, demoBob]) \<and>
   WaitlistController_savePost castObjectId 2002 (Some (oid demoBob)) (Some demoRawUrl)
     [demoAlice\<lparr>posted := True, postUrl := Some demoPostUrl, updatedAt := 2000\<rparr>,
      demoBob\<lparr>posted := True, postUrl := Some demoPostUrl, updatedAt := 2001\<rparr>] =
     ((400, JObj [(''success'', JBool False),
                  (''message'', JStr ''This post has already been used by another user. Please create a new post.'')]),
      [demoAlice\<lparr>posted := True, postUrl := Some demoPostUrl, updatedAt := 2000\<rparr>,
       demoBob\<lparr>posted := True, postUrl := Some demoPostUrl, updatedAt := 2001\<rparr>])"
  by (simp add: savePost_check_def savePost_write_def WaitlistController_savePost_def
      WaitlistService_findById_def Waitlist_findById_def WaitlistService_findByPostUrl_def
      WaitlistService_updatePostStatus_def findOneAndUpdate_def findOne_def falsy_def
      postUrlRegex_def isWordChar_def isDigit_def isHexChar_def castObjectId_def
      toLowerCase_def lowerChar_def Let_def
      demoAlice_def demoBob_def demoAliceUpper_def demoRawUrl_def demoPostUrl_def)

text \<open>
  Claim C9 on the code. Two requests for different verified entries carry the same
  canonical URL. Each runs its reading part on the store as it is before either write:
  neither finds the URL in use, both decide to write. The two writes then both succeed
  with 200, and two entries hold the same post URL. Nothing in the store refuses the
  second write; run one after the other, the second request is refused with 400.
\<close>

theorem savePost_race:
  "savePost_check Some (Some ''65a000000000000000000001'') (Some demoRawUrl) [demoAlice, demoBob] =
     Inr (demoAlice, demoPostUrl) \<and>
   savePost_check Some (Some ''65a000000000000000000002'') (Some demoPostUrl) [demoAlice, demoBob] =
     Inr (demoBob, demoPostUrl) \<and>
   savePost_write 2000 (demoAlice, demoPostUrl) [demoAlice, demoBob] =
     ((200, JObj [(''success'', JBool True),
                  (''message'', JStr ''Post URL saved successfully! We will verify it automatically nearer to launch.'')]),
      [demoAlice\<lparr>posted := True, postUrl := Some demoPostUrl, updatedAt := 2000\<rparr>, demoBob]) \<and>
   savePost_write 2001 (demoBob, demoPostUrl)
     [demoAlice\<lparr>posted := True, postUrl := Some demoPostUrl, updatedAt := 2000\<rparr>, demoBob] =
     ((200, JObj [(''success'', JBool True),
                  (''message'', JStr ''Post URL saved successfully! We will verify it automatically nearer to launch.'')]),
      [demoAlice\<lparr>posted := True, postUrl := Some demoPostUrl, updatedAt := 2000\<rparr>,
       demoBob\<lparr>posted := True, postUrl := Some demoPostUrl, updatedAt := 2001\<rparr>]) \<and>
   oid demoAlice \<noteq> oid demoBob \<and>
   fst (fst (WaitlistController_savePost Some 2001 (Some ''65a000000000000000000002'') (Some demoPostUrl)
     [demoAlice\<lparr>posted := True, postUrl := Some demoPostUrl, updatedAt := 2000\<rparr>, demoBob])) = 400"
  by (simp add: savePost_check_def savePost_write_def WaitlistController_savePost_def
      WaitlistService_findById_def Waitlist_findById_def WaitlistService_findByPostUrl_def
      WaitlistService_updatePostStatus_def findOneAndUpdate_def findOne_def falsy_def
      postUrlRegex_def isWordChar_def isDigit_def Let_def
      demoAlice_def demoBob_def demoRawUrl_def demoPostUrl_def)

section \<open>The administrator's listing\<close>

lemma set_findSortSkipLimit: "set (findSortSkipLimit q k lim s) \<subseteq> set s"
proof -
  have "set (drop (nat k) (sort_key (\<lambda>d. - createdAt d) (filter q s))) \<subseteq> set s"
    using set_drop_subset[of "nat k" "sort_key (\<lambda>d. - createdAt d) (filter q s)"] by auto
  moreover have "set (take (nat \<bar>lim\<bar>) (drop (nat k) (sort_key (\<lambda>d. - createdAt d) (filter q s)))) \<subseteq> set s"
    using set_take_subset[of "nat \<bar>lim\<bar>" "drop (nat k) (sort_key (\<lambda>d. - createdAt d) (filter q s))"]
      set_drop_subset[of "nat k" "sort_key (\<lambda>d. - createdAt d) (filter q s)"] by auto
  ultimately show ?thesis by (simp add: findSortSkipLimit_def Let_def)
qed

lemma toObject_token:
  "field ''verificationToken'' (toObject d) = Some (optStr (verificationToken d))"
  by (simp add: field_def toObject_def)

lemma toSafeObject_token: "field ''verificationToken'' (toSafeObject d) = None"
  by (simp add: field_def toObject_def toSafeObject_def)

lemma getPaginated_entries:
  assumes "Waitlist_getPaginated regexI pg lim statusFilter search verifiedFilter s = Inr result"
  shows "\<exists>docs pag. result = [(''entries'', JArr (map toObject docs)), (''pagination'', pag)] \<and>
           set docs \<subseteq> set s"
proof -
  let ?q = "\<lambda>d.
              (falsy statusFilter \<or> status d = the statusFilter) \<and>
              (case verifiedFilter of None \<Rightarrow> True | Some v \<Rightarrow> emailVerified d = v) \<and>
              (falsy search \<or> the (regexI (the search)) (name d)
                            \<or> the (regexI (the search)) (email d))"
  let ?docs = "findSortSkipLimit ?q ((pg - 1) * lim) lim s"
  let ?pag = "JObj [(''page'', JNum pg), (''limit'', JNum lim),
                    (''total'', JNum (countDocuments ?q s)),
                    (''pages'', if lim = 0 then JNull
                                else JNum (- ((- countDocuments ?q s) div lim)))]"
  have c1: "\<not> (\<not> falsy search \<and> regexI (the search) = None)"
    using assms by (auto simp: Waitlist_getPaginated_def split: if_splits)
  have c2: "\<not> (pg - 1) * lim < 0"
    using assms c1 by (auto simp: Waitlist_getPaginated_def Let_def split: if_splits)
  have "Waitlist_getPaginated regexI pg lim statusFilter search verifiedFilter s =
          Inr [(''entries'', JArr (map toObject ?docs)), (''pagination'', ?pag)]"
    unfolding Waitlist_getPaginated_def Let_def using c1 c2 by simp
  with assms have "result = [(''entries'', JArr (map toObject ?docs)), (''pagination'', ?pag)]"
    by simp
  moreover have "set ?docs \<subseteq> set s" by (rule set_findSortSkipLimit)
  ultimately show ?thesis by blast
qed

text \<open>
  Claim C10. Whenever the listing replies 200, its \<open>entries\<close> are the plain objects of
  stored entries, and the object of every listed entry that holds a verification token
  carries that token under \<open>verificationToken\<close>, as it is stored. The safe projection
  \<open>toSafeObject\<close>, which has no such field, is not what the listing returns.
\<close>

theorem getEntries_exposes_tokens:
  assumes "AdminController_getEntries regexI pg lim statusFilter search s = (200, body)"
  shows "\<exists>docs. field ''entries'' body = Some (JArr (map toObject docs)) \<and>
           set docs \<subseteq> set s \<and>
           (\<forall>d\<in>set docs. \<forall>t. verificationToken d = Some t \<longrightarrow>
              field ''verificationToken'' (toObject d) = Some (JStr t) \<and>
              field ''verificationToken'' (toSafeObject d) = None)"
proof -
  let ?p = "case pg of None \<Rightarrow> 1 | Some p \<Rightarrow> p"
  let ?l = "case lim of None \<Rightarrow> 50 | Some l \<Rightarrow> l"
  from assms obtain result
    where r: "Waitlist_getPaginated regexI ?p ?l statusFilter search None s = Inr result"
      and b: "body = JObj ((''success'', JBool True) # result)"
    by (auto simp: AdminController_getEntries_def WaitlistService_getEntries_def split: sum.splits)
  from getPaginated_entries[OF r] obtain docs pag
    where res: "result = [(''entries'', JArr (map toObject docs)), (''pagination'', pag)]"
      and sub: "set docs \<subseteq> set s" by blast
  have d: "field ''entries'' body = Some (JArr (map toObject docs))"
    by (simp add: b res field_def)
  have tk: "\<forall>d\<in>set docs. \<forall>t. verificationToken d = Some t \<longrightarrow>
              field ''verificationToken'' (toObject d) = Some (JStr t) \<and>
              field ''verificationToken'' (toSafeObject d) = None"
    by (simp add: toObject_token toSafeObject_token optStr_def)
  show ?thesis
    by (rule exI[of _ docs]) (intro conjI d sub tk)
qed

theorem getEntries_exposes_tokens_witness:
  "AdminController_getEntries (\<lambda>p. None) None None None None [demoAlice, demoEntry] =
     (200, JObj [(''success'', JBool True),
                 (''entries'', JArr [toObject demoAlice, toObject demoEntry]),
                 (''pagination'', JObj [(''page'', JNum 1), (''limit'', JNum 50),
                                        (''total'', JNum 2), (''pages'', JNum 1)])]) \<and>
   field ''verificationToken'' (toObject demoEntry) = Some (JStr ''valid-token-123'') \<and>
   field ''verificationToken'' (toSafeObject demoEntry) = None"
proof -
  have e: "AdminController_getEntries (\<lambda>p. None) None None None None [demoAlice, demoEntry] =
     (200, JObj [(''success'', JBool True),
                 (''entries'', JArr [toObject demoAlice, toObject demoEntry]),
                 (''pagination'', JObj [(''page'', JNum 1), (''limit'', JNum 50),
                                        (''total'', JNum 2), (''pages'', JNum 1)])])"
    by (simp add: AdminController_getEntries_def WaitlistService_getEntries_def
        Waitlist_getPaginated_def findSortSkipLimit_def countDocuments_def falsy_def Let_def
        demoAlice_def demoEntry_def)
  from getEntries_exposes_tokens[OF e] obtain docs
    where d: "field ''entries'' (JObj [(''success'', JBool True),
                 (''entries'', JArr [toObject demoAlice, toObject demoEntry]),
                 (''pagination'', JObj [(''page'', JNum 1), (''limit'', JNum 50),
                                        (''total'', JNum 2), (''pages'', JNum 1)])]) =
               Some (JArr (map toObject docs))"
      and tk: "\<forall>d\<in>set docs. \<forall>t. verificationToken d = Some t \<longrightarrow>
              field ''verificationToken'' (toObject d) = Some (JStr t) \<and>
              field ''verificationToken'' (toSafeObject d) = None"
    by blast
  have t: "field ''verificationToken'' (toObject demoEntry) = Some (JStr ''valid-token-123'') \<and>
        field ''verificationToken'' (toSafeObject demoEntry) = None"
    by (simp add: field_def toObject_def toSafeObject_def optStr_def demoEntry_def)
  show ?thesis by (rule conjI[OF e t])
qed

section \<open>The handlers keep the invariants of the store\<close>

lemma set_updateOne: "set (updateOne q u s) \<subseteq> set s \<union> u ` set s"
  by (induction s) auto

lemma map_updateOne: "(\<And>d. f (u d) = f d) \<Longrightarrow> map f (updateOne q u s) = map f s"
  by (induction s) auto

lemma set_deleteOne: "set (deleteOne q s) \<subseteq> set s"
  by (induction s) auto

lemma distinct_map_deleteOne: "distinct (map f s) \<Longrightarrow> distinct (map f (deleteOne q s))"
proof (induction s)
  case Nil
  then show ?case by simp
next
  case (Cons d ds)
  have "f ` set (deleteOne q ds) \<subseteq> f ` set ds"
    using set_deleteOne[of q ds] by blast
  with Cons show ?case by auto
qed

lemma postUrlUnique_image:
  "postUrlUnique s =
     (\<forall>k\<in>(\<lambda>d. (oid d, postUrl d)) ` set s. \<forall>k'\<in>(\<lambda>d. (oid d, postUrl d)) ` set s.
        snd k \<noteq> None \<and> snd k = snd k' \<longrightarrow> fst k = fst k')"
  by (simp add: postUrlUnique_def)

lemma postUrlUnique_subset:
  "postUrlUnique s \<Longrightarrow> set s' \<subseteq> set s \<Longrightarrow> postUrlUnique s'"
  unfolding postUrlUnique_def by (meson subsetD)

lemma storeInv_updateOne:
  assumes inv: "storeInv cast s"
    and o: "\<And>d. oid (u d) = oid d"
    and e: "\<And>d. email (u d) = email d"
    and p: "\<And>d. postUrl (u d) = postUrl d"
    and v: "\<And>d. validStatus (status d) \<Longrightarrow> validStatus (status (u d))"
  shows "storeInv cast (updateOne q u s)"
proof -
  have "map (\<lambda>d. (oid d, postUrl d)) (updateOne q u s) = map (\<lambda>d. (oid d, postUrl d)) s"
    by (rule map_updateOne) (simp add: o p)
  then have "set (map (\<lambda>d. (oid d, postUrl d)) (updateOne q u s)) =
             set (map (\<lambda>d. (oid d, postUrl d)) s)" by (rule arg_cong)
  then have k: "(\<lambda>d. (oid d, postUrl d)) ` set (updateOne q u s) =
                (\<lambda>d. (oid d, postUrl d)) ` set s" by (simp only: set_map)
  have mo: "map oid (updateOne q u s) = map oid s" by (rule map_updateOne) (rule o)
  have me: "map email (updateOne q u s) = map email s" by (rule map_updateOne) (rule e)
  have st: "statusesValid (updateOne q u s)"
    using inv set_updateOne[of q u s] v by (auto simp: storeInv_def statusesValid_def)
  from inv have "postUrlUnique s" by (simp add: storeInv_def)
  then have pu: "postUrlUnique (updateOne q u s)"
    by (simp only: postUrlUnique_image k)
  have "oid ` set (updateOne q u s) = oid ` set s"
    using arg_cong[OF mo, of set] by (simp only: set_map)
  then have ic: "idsCanonical cast (updateOne q u s)"
    using inv unfolding storeInv_def idsCanonical_def by (metis (no_types, lifting) imageE imageI)
  from inv st pu ic show ?thesis by (simp add: storeInv_def mo me)
qed

lemma storeInv_deleteOne:
  assumes inv: "storeInv cast s"
  shows "storeInv cast (deleteOne q s)"
proof -
  note sub = set_deleteOne[of q s]
  from inv sub have "statusesValid (deleteOne q s)"
    unfolding storeInv_def statusesValid_def by (meson subsetD)
  moreover from inv sub have "idsCanonical cast (deleteOne q s)"
    unfolding storeInv_def idsCanonical_def by (meson subsetD)
  moreover from inv sub have "postUrlUnique (deleteOne q s)"
    unfolding storeInv_def by (meson postUrlUnique_subset)
  moreover from inv have "distinct (map oid (deleteOne q s))" "distinct (map email (deleteOne q s))"
    by (simp_all add: storeInv_def distinct_map_deleteOne)
  ultimately show ?thesis by (simp add: storeInv_def)
qed

lemma storeInv_append:
  assumes inv: "storeInv cast s"
    and o: "oid doc \<notin> set (map oid s)"
    and e: "email doc \<notin> set (map email s)"
    and p: "postUrl doc = None"
    and v: "validStatus (status doc)"
    and c: "cast (oid doc) = Some (oid doc)"
  shows "storeInv cast (s @ [doc])"
proof -
  have st: "statusesValid (s @ [doc])"
    using inv v by (simp add: storeInv_def statusesValid_def)
  have ic: "idsCanonical cast (s @ [doc])"
    using inv c by (simp add: storeInv_def idsCanonical_def)
  have di: "distinct (map oid (s @ [doc]))" "distinct (map email (s @ [doc]))"
    using inv o e by (simp_all add: storeInv_def)
  have pu: "postUrlUnique (s @ [doc])"
    unfolding postUrlUnique_def
  proof (intro ballI impI)
    fix d d'
    assume d: "d \<in> set (s @ [doc])" and d': "d' \<in> set (s @ [doc])"
      and h: "postUrl d \<noteq> None \<and> postUrl d = postUrl d'"
    from h p have "d \<noteq> doc" "d' \<noteq> doc" by auto
    with d d' have "d \<in> set s" "d' \<in> set s" by simp_all
    moreover from inv have "postUrlUnique s" by (simp add: storeInv_def)
    ultimately show "oid d = oid d'" using h unfolding postUrlUnique_def by blast
  qed
  from st ic di pu show ?thesis by (simp add: storeInv_def)
qed

lemma validStatus_approved: "validStatus ''approved''"
  by (simp add: validStatus_def validStatuses_def)

lemma storeInv_verifyEmail:
  "storeInv cast s \<Longrightarrow> storeInv cast (snd (WaitlistController_verifyEmail now token s))"
  by (auto simp: WaitlistController_verifyEmail_def WaitlistService_verifyEmail_def
      findOneAndUpdate_def validStatus_approved
      split: option.splits intro!: storeInv_updateOne)

lemma storeInv_server_verify_email:
  "storeInv cast s \<Longrightarrow> storeInv cast (snd (server_verify_email now token s))"
  by (auto simp: server_verify_email_def validStatus_approved
      split: option.splits intro!: storeInv_updateOne)

lemma storeInv_resendVerification:
  "storeInv cast s \<Longrightarrow>
   storeInv cast (fst (snd (AdminController_resendVerification cast' randomHex send now ident s)))"
  by (auto simp: AdminController_resendVerification_def Let_def
      split: option.splits sum.splits intro!: storeInv_updateOne)

lemma storeInv_server_resend_verification:
  "storeInv cast s \<Longrightarrow>
   storeInv cast (fst (snd (server_resend_verification cast' randomHex send now ident s)))"
  by (auto simp: server_resend_verification_def Let_def
      split: option.splits intro!: storeInv_updateOne)

lemma storeInv_updateStatus:
  "storeInv cast s \<Longrightarrow> storeInv cast (snd (route_POST_admin_status cast' now ident st s))"
  by (auto simp: route_POST_admin_status_def validateStatusUpdate_def
      AdminController_updateStatus_def WaitlistService_updateStatus_def findOneAndUpdate_def
      falsy_def validStatus_def
      split: option.splits sum.splits if_splits intro!: storeInv_updateOne)

lemma storeInv_deleteEntry:
  "storeInv cast s \<Longrightarrow> storeInv cast (snd (AdminController_deleteEntry cast' ident s))"
  by (auto simp: AdminController_deleteEntry_def WaitlistService_deleteEntry_def
      split: option.splits sum.splits intro!: storeInv_deleteOne)

lemma submit_store_cases:
  "fst (snd (route_POST_waitlist isAddress newId randomHex now b s)) = s \<or>
   insertOne ((WaitlistService_newEntry newId randomHex now b)\<lparr>updatedAt := now\<rparr>) s =
     Inr (fst (snd (route_POST_waitlist isAddress newId randomHex now b s)))"
  by (simp add: route_POST_waitlist_def WaitlistController_submit_def
      WaitlistService_createEntry_def Waitlist_save_def Let_def
      split: option.splits sum.splits)

lemma storeInv_submit:
  assumes inv: "storeInv cast s" and c: "cast newId = Some newId"
  shows "storeInv cast (fst (snd (route_POST_waitlist isAddress newId randomHex now b s)))"
proof -
  let ?doc = "(WaitlistService_newEntry newId randomHex now b)\<lparr>updatedAt := now\<rparr>"
  let ?s' = "fst (snd (route_POST_waitlist isAddress newId randomHex now b s))"
  from submit_store_cases[of isAddress newId randomHex now b s]
  show ?thesis
  proof
    assume "?s' = s"
    with inv show ?thesis by simp
  next
    assume ins: "insertOne ?doc s = Inr ?s'"
    then have fresh: "oid ?doc \<notin> set (map oid s)" "email ?doc \<notin> set (map email s)"
      and s': "?s' = s @ [?doc]"
      by (auto simp: insertOne_def split: if_splits)
    have "storeInv cast (s @ [?doc])"
      using inv fresh
    proof (rule storeInv_append)
      show "postUrl ?doc = None" by (simp add: WaitlistService_newEntry_def)
      show "validStatus (status ?doc)"
        by (simp add: WaitlistService_newEntry_def validStatus_def validStatuses_def)
      show "cast (oid ?doc) = Some (oid ?doc)"
        using c by (simp add: WaitlistService_newEntry_def)
    qed
    with s' show ?thesis by simp
  qed
qed

lemma server_submit_store_cases:
  "fst (snd (server_submit isAddress newId randomHex now b s)) = s \<or>
   insertOne (server_newEntry newId randomHex now b) s =
     Inr (fst (snd (server_submit isAddress newId randomHex now b s)))"
  by (simp add: server_submit_def split: sum.splits)

lemma storeInv_server_submit:
  assumes inv: "storeInv cast s" and c: "cast newId = Some newId"
  shows "storeInv cast (fst (snd (server_submit isAddress newId randomHex now b s)))"
proof -
  let ?doc = "server_newEntry newId randomHex now b"
  let ?s' = "fst (snd (server_submit isAddress newId randomHex now b s))"
  from server_submit_store_cases[of isAddress newId randomHex now b s]
  show ?thesis
  proof
    assume "?s' = s"
    with inv show ?thesis by simp
  next
    assume ins: "insertOne ?doc s = Inr ?s'"
    then have fresh: "oid ?doc \<notin> set (map oid s)" "email ?doc \<notin> set (map email s)"
      and s': "?s' = s @ [?doc]"
      by (auto simp: insertOne_def split: if_splits)
    have "storeInv cast (s @ [?doc])"
      using inv fresh
    proof (rule storeInv_append)
      show "postUrl ?doc = None" by (simp add: server_newEntry_def)
      show "validStatus (status ?doc)"
        by (simp add: server_newEntry_def validStatus_def validStatuses_def)
      show "cast (oid ?doc) = Some (oid ?doc)"
        using c by (simp add: server_newEntry_def)
    qed
    with s' show ?thesis by simp
  qed
qed

lemma savePost_check_Inr:
  assumes "savePost_check cast userId rawUrl s = Inr (e, u)"
  shows "\<exists>uid i. userId = Some uid \<and> cast uid = Some i \<and> find (\<lambda>d. oid d = i) s = Some e \<and>
           (find (\<lambda>d. postUrl d = Some u) s = None \<or>
            (\<exists>x. find (\<lambda>d. postUrl d = Some u) s = Some x \<and> oid x = uid))"
  using assms
  by (simp add: savePost_check_def Let_def falsy_def WaitlistService_findById_def
      Waitlist_findById_def WaitlistService_findByPostUrl_def findOne_def
      split: if_splits option.splits sum.splits prod.splits)

lemma find_oid_unique:
  assumes "distinct (map oid s)" and "x \<in> set s" and "y \<in> set s" and "oid x = oid y"
  shows "x = y"
  using assms by (meson distinct_map inj_onD)

lemma storeInv_savePost:
  assumes inv: "storeInv cast s"
  shows "storeInv cast (snd (WaitlistController_savePost cast now userId rawUrl s))"
proof (cases "savePost_check cast userId rawUrl s")
  case (Inl reply)
  with inv show ?thesis by (simp add: WaitlistController_savePost_def)
next
  case (Inr w)
  obtain e u where w: "w = (e, u)" by (cases w)
  let ?f = "\<lambda>d. d\<lparr>posted := True, postUrl := Some u, updatedAt := now\<rparr>"
  let ?s' = "updateOne (\<lambda>d. oid d = oid e) ?f s"
  have res: "snd (WaitlistController_savePost cast now userId rawUrl s) = ?s'"
    by (simp add: WaitlistController_savePost_def Inr w savePost_write_def
        WaitlistService_updatePostStatus_def findOneAndUpdate_def)
  from savePost_check_Inr[OF Inr[unfolded w]] obtain uid i
    where ci: "cast uid = Some i" and fe: "find (\<lambda>d. oid d = i) s = Some e"
      and holder: "find (\<lambda>d. postUrl d = Some u) s = None \<or>
            (\<exists>x. find (\<lambda>d. postUrl d = Some u) s = Some x \<and> oid x = uid)"
    by blast
  from inv have dist: "distinct (map oid s)" and uniq: "postUrlUnique s"
    and canon: "idsCanonical cast s"
    by (simp_all add: storeInv_def)
  from find_split[OF fe] obtain pre post
    where s: "s = pre @ e # post" and pre: "\<forall>d\<in>set pre. \<not> oid d = i" and ie: "oid e = i"
    by blast
  from find_Some_mem[OF fe] have es: "e \<in> set s" by simp
  have H: "\<forall>d\<in>set s. postUrl d = Some u \<longrightarrow> oid d = oid e"
  proof (intro ballI impI)
    fix d assume d: "d \<in> set s" and du: "postUrl d = Some u"
    from find_exists[of d s "\<lambda>d. postUrl d = Some u"] d du
    have "find (\<lambda>d. postUrl d = Some u) s \<noteq> None" by auto
    with holder obtain x where x: "find (\<lambda>d. postUrl d = Some u) s = Some x" and ox: "oid x = uid"
      by blast
    from find_Some_mem[OF x] have xs: "x \<in> set s" and xu: "postUrl x = Some u" by simp_all
    from canon xs have "cast (oid x) = Some (oid x)" by (simp add: idsCanonical_def)
    with ox ci have "oid x = i" by simp
    moreover from uniq d xs du xu have "oid d = oid x"
      unfolding postUrlUnique_def by (metis option.distinct(1))
    ultimately show "oid d = oid e" using ie by simp
  qed
  have s': "?s' = pre @ ?f e # post"
    unfolding s using pre ie by (intro updateOne_split) auto
  have mo: "map oid ?s' = map oid s" by (rule map_updateOne) simp
  have me: "map email ?s' = map email s" by (rule map_updateOne) simp
  have st: "statusesValid ?s'"
    using inv[unfolded storeInv_def statusesValid_def s] unfolding s' statusesValid_def by simp
  have "oid ` set ?s' = oid ` set s"
    using arg_cong[OF mo, of set] by (simp only: set_map)
  then have ic: "idsCanonical cast ?s'"
    using canon unfolding idsCanonical_def by (metis (no_types, lifting) imageE imageI)
  have pu: "postUrlUnique ?s'"
    unfolding postUrlUnique_def
  proof (intro ballI impI)
    fix d d'
    assume d: "d \<in> set ?s'" and d': "d' \<in> set ?s'"
      and h: "postUrl d \<noteq> None \<and> postUrl d = postUrl d'"
    from d[unfolded s'] have dc: "d = ?f e \<or> d \<in> set s" by (auto simp: s)
    from d'[unfolded s'] have dc': "d' = ?f e \<or> d' \<in> set s" by (auto simp: s)
    show "oid d = oid d'"
    proof (cases "d = ?f e")
      case True
      show ?thesis
      proof (cases "d' = ?f e")
        case True
        with \<open>d = ?f e\<close> show ?thesis by simp
      next
        case False
        with dc' have "d' \<in> set s" by simp
        moreover from h True have "postUrl d' = Some u" by simp
        ultimately have "oid d' = oid e" using H by simp
        with True show ?thesis by simp
      qed
    next
      case False
      with dc have ds: "d \<in> set s" by simp
      show ?thesis
      proof (cases "d' = ?f e")
        case True
        with h have "postUrl d = Some u" by simp
        with ds H have "oid d = oid e" by simp
        with True show ?thesis by simp
      next
        case False
        with dc' have "d' \<in> set s" by simp
        with uniq ds h show ?thesis unfolding postUrlUnique_def by blast
      qed
    qed
  qed
  from inv st pu ic show ?thesis unfolding res by (simp add: storeInv_def mo me)
qed

lemma storeInv_empty: "storeInv cast []"
  by (simp add: storeInv_def statusesValid_def postUrlUnique_def idsCanonical_def)

lemma reachable_storeInv: "reachable cast s \<Longrightarrow> storeInv cast s"
proof (induction rule: reachable.induct)
  case start
  show ?case by (rule storeInv_empty)
next
  case (submit s newId isAddress randomHex now b)
  then show ?case by (intro storeInv_submit)
next
  case (server_submit s newId isAddress randomHex now b)
  then show ?case by (intro storeInv_server_submit)
next
  case (verify s now token)
  then show ?case by (intro storeInv_verifyEmail)
next
  case (server_verify s now token)
  then show ?case by (intro storeInv_server_verify_email)
next
  case (savePost s now userId rawUrl)
  then show ?case by (intro storeInv_savePost)
next
  case (resend s randomHex send now ident)
  then show ?case by (intro storeInv_resendVerification)
next
  case (server_resend s randomHex send now ident)
  then show ?case by (intro storeInv_server_resend_verification)
next
  case (updateStatus s now ident st)
  then show ?case by (intro storeInv_updateStatus)
next
  case (deleteEntry s ident)
  then show ?case by (intro storeInv_deleteEntry)
qed

lemma reachable_statistics:
  assumes "reachable cast s"
  shows "pending (WaitlistService_getStatistics s) + approved (WaitlistService_getStatistics s) +
           rejected (WaitlistService_getStatistics s) = total (WaitlistService_getStatistics s)"
proof -
  from reachable_storeInv[OF assms] have "\<forall>d\<in>set s. validStatus (status d)"
    by (simp add: storeInv_def statusesValid_def)
  from count_status[OF this] show ?thesis
    by (simp add: WaitlistService_getStatistics_def Waitlist_getStatistics_def Let_def
        countDocuments_def)
qed

section \<open>A verified entry holds no token\<close>

lemma tov_updateOne:
  assumes "tokensOnlyUnverified s"
    and "\<And>d. d \<in> set s \<Longrightarrow> q d \<Longrightarrow> emailVerified (u d) \<Longrightarrow> verificationToken (u d) = None"
  shows "tokensOnlyUnverified (updateOne q u s)"
  using assms
proof (induction s)
  case Nil
  then show ?case by (simp add: tokensOnlyUnverified_def)
next
  case (Cons d ds)
  from Cons.prems(1) have tl: "tokensOnlyUnverified ds" and hd: "emailVerified d \<longrightarrow> verificationToken d = None"
    by (simp_all add: tokensOnlyUnverified_def)
  show ?case
  proof (cases "q d")
    case True
    with Cons.prems(2)[of d] have "emailVerified (u d) \<longrightarrow> verificationToken (u d) = None" by simp
    with True tl show ?thesis by (simp add: tokensOnlyUnverified_def)
  next
    case False
    have "tokensOnlyUnverified (updateOne q u ds)"
      using tl Cons.prems(2) by (intro Cons.IH) auto
    with False hd show ?thesis by (simp add: tokensOnlyUnverified_def)
  qed
qed

lemma tov_keep:
  assumes "tokensOnlyUnverified s"
    and "\<And>d. emailVerified (u d) = emailVerified d"
    and "\<And>d. verificationToken (u d) = verificationToken d"
  shows "tokensOnlyUnverified (updateOne q u s)"
  using assms(1)
proof (rule tov_updateOne)
  fix d assume "d \<in> set s" "emailVerified (u d)"
  with assms show "verificationToken (u d) = None" by (simp add: tokensOnlyUnverified_def)
qed

lemma tov_verifyEmail:
  "tokensOnlyUnverified s \<Longrightarrow> tokensOnlyUnverified (snd (WaitlistController_verifyEmail now token s))"
  by (auto simp: WaitlistController_verifyEmail_def WaitlistService_verifyEmail_def
      findOneAndUpdate_def split: option.splits intro!: tov_updateOne)

lemma tov_server_verify_email:
  "tokensOnlyUnverified s \<Longrightarrow> tokensOnlyUnverified (snd (server_verify_email now token s))"
  by (auto simp: server_verify_email_def split: option.splits intro!: tov_updateOne)

lemma tov_savePost:
  "tokensOnlyUnverified s \<Longrightarrow>
   tokensOnlyUnverified (snd (WaitlistController_savePost cast now userId rawUrl s))"
  by (auto simp: WaitlistController_savePost_def savePost_write_def
      WaitlistService_updatePostStatus_def findOneAndUpdate_def
      split: sum.splits intro!: tov_keep)

lemma tov_updateStatus:
  "tokensOnlyUnverified s \<Longrightarrow>
   tokensOnlyUnverified (snd (route_POST_admin_status cast now ident st s))"
  by (auto simp: route_POST_admin_status_def AdminController_updateStatus_def
      WaitlistService_updateStatus_def findOneAndUpdate_def
      split: option.splits sum.splits intro!: tov_keep)

lemma tov_deleteEntry:
  "tokensOnlyUnverified s \<Longrightarrow> tokensOnlyUnverified (snd (AdminController_deleteEntry cast ident s))"
proof -
  assume a: "tokensOnlyUnverified s"
  have "tokensOnlyUnverified (deleteOne q s)" for q
    using a set_deleteOne[of q s] unfolding tokensOnlyUnverified_def by (meson subsetD)
  with a show ?thesis
    by (auto simp: AdminController_deleteEntry_def WaitlistService_deleteEntry_def
        split: option.splits sum.splits)
qed

lemma tov_submit:
  assumes "tokensOnlyUnverified s"
  shows "tokensOnlyUnverified (fst (snd (route_POST_waitlist isAddress newId randomHex now b s)))"
  using submit_store_cases[of isAddress newId randomHex now b s]
proof
  assume "fst (snd (route_POST_waitlist isAddress newId randomHex now b s)) = s"
  with assms show ?thesis by simp
next
  assume "insertOne ((WaitlistService_newEntry newId randomHex now b)\<lparr>updatedAt := now\<rparr>) s =
     Inr (fst (snd (route_POST_waitlist isAddress newId randomHex now b s)))"
  then have "fst (snd (route_POST_waitlist isAddress newId randomHex now b s)) =
       s @ [(WaitlistService_newEntry newId randomHex now b)\<lparr>updatedAt := now\<rparr>]"
    by (auto simp: insertOne_def split: if_splits)
  with assms show ?thesis
    by (simp add: tokensOnlyUnverified_def WaitlistService_newEntry_def)
qed

lemma tov_server_submit:
  assumes "tokensOnlyUnverified s"
  shows "tokensOnlyUnverified (fst (snd (server_submit isAddress newId randomHex now b s)))"
  using server_submit_store_cases[of isAddress newId randomHex now b s]
proof
  assume "fst (snd (server_submit isAddress newId randomHex now b s)) = s"
  with assms show ?thesis by simp
next
  assume "insertOne (server_newEntry newId randomHex now b) s =
     Inr (fst (snd (server_submit isAddress newId randomHex now b s)))"
  then have "fst (snd (server_submit isAddress newId randomHex now b s)) =
       s @ [server_newEntry newId randomHex now b]"
    by (auto simp: insertOne_def split: if_splits)
  with assms show ?thesis
    by (simp add: tokensOnlyUnverified_def server_newEntry_def)
qed

lemma tov_token_update:
  assumes t: "tokensOnlyUnverified s" and dist: "distinct (map oid s)"
    and f: "find (\<lambda>d. oid d = i) s = Some entry" and unv: "\<not> emailVerified entry"
  shows "tokensOnlyUnverified (updateOne (\<lambda>d. oid d = oid entry)
           (\<lambda>d. d\<lparr>verificationToken := Some randomHex, updatedAt := now\<rparr>) s)"
  using t
proof (rule tov_updateOne)
  fix d
  assume d: "d \<in> set s" "oid d = oid entry"
    and v: "emailVerified (d\<lparr>verificationToken := Some randomHex, updatedAt := now\<rparr>)"
  from find_Some_mem[OF f] have "entry \<in> set s" by simp
  from find_oid_unique[OF dist d(1) this d(2)] have "d = entry" .
  with unv v show "verificationToken (d\<lparr>verificationToken := Some randomHex, updatedAt := now\<rparr>) = None"
    by simp
qed

lemma tov_resendVerification:
  assumes t: "tokensOnlyUnverified s" and dist: "distinct (map oid s)"
  shows "tokensOnlyUnverified
           (fst (snd (AdminController_resendVerification cast randomHex send now ident s)))"
proof (cases "WaitlistService_findById cast ident s")
  case (Inl err)
  with t show ?thesis by (simp add: AdminController_resendVerification_def)
next
  case (Inr found)
  show ?thesis
  proof (cases found)
    case None
    with Inr t show ?thesis by (simp add: AdminController_resendVerification_def)
  next
    case (Some entry)
    from Inr Some obtain i where f: "find (\<lambda>d. oid d = i) s = Some entry"
      by (auto simp: WaitlistService_findById_def Waitlist_findById_def findOne_def
          split: option.splits)
    show ?thesis
    proof (cases "emailVerified entry")
      case True
      with Inr Some t show ?thesis by (simp add: AdminController_resendVerification_def)
    next
      case False
      note upd = tov_token_update[OF t dist f False, where randomHex = randomHex and now = now]
      with Inr Some False t show ?thesis
        by (simp add: AdminController_resendVerification_def Let_def)
    qed
  qed
qed

lemma tov_server_resend_verification:
  assumes t: "tokensOnlyUnverified s" and dist: "distinct (map oid s)"
  shows "tokensOnlyUnverified
           (fst (snd (server_resend_verification cast randomHex send now ident s)))"
proof (cases "cast ident")
  case None
  with t show ?thesis by (simp add: server_resend_verification_def)
next
  case (Some i)
  show ?thesis
  proof (cases "find (\<lambda>d. oid d = i) s")
    case None
    with Some t show ?thesis by (simp add: server_resend_verification_def findOne_def)
  next
    case found: (Some entry)
    show ?thesis
    proof (cases "emailVerified entry")
      case True
      with Some found t show ?thesis by (simp add: server_resend_verification_def findOne_def)
    next
      case False
      note upd = tov_token_update[OF t dist found False, where randomHex = randomHex and now = now]
      with Some found False show ?thesis
        by (simp add: server_resend_verification_def findOne_def Let_def)
    qed
  qed
qed

lemma reachable_tokensOnlyUnverified: "reachable cast s \<Longrightarrow> tokensOnlyUnverified s"
proof (induction rule: reachable.induct)
  case start
  show ?case by (simp add: tokensOnlyUnverified_def)
next
  case (submit s newId isAddress randomHex now b)
  then show ?case by (intro tov_submit)
next
  case (server_submit s newId isAddress randomHex now b)
  then show ?case by (intro tov_server_submit)
next
  case (verify s now token)
  then show ?case by (intro tov_verifyEmail)
next
  case (server_verify s now token)
  then show ?case by (intro tov_server_verify_email)
next
  case (savePost s now userId rawUrl)
  then show ?case by (intro tov_savePost)
next
  case (resend s randomHex send now ident)
  from reachable_storeInv[OF resend.hyps] have "distinct (map oid s)" by (simp add: storeInv_def)
  with resend.IH show ?case by (intro tov_resendVerification)
next
  case (server_resend s randomHex send now ident)
  from reachable_storeInv[OF server_resend.hyps] have "distinct (map oid s)"
    by (simp add: storeInv_def)
  with server_resend.IH show ?case by (intro tov_server_resend_verification)
next
  case (updateStatus s now ident st)
  then show ?case by (intro tov_updateStatus)
next
  case (deleteEntry s ident)
  then show ?case by (intro tov_deleteEntry)
qed

text \<open>
  A lookup by token can only find an entry that holds a token, and in a store the handlers
  produced such an entry is not verified: no request is ever answered
  \<open>alreadyVerified = true\<close>.
\<close>

lemma never_alreadyVerified:
  assumes "tokensOnlyUnverified s"
  shows "field ''alreadyVerified'' (snd (fst (WaitlistController_verifyEmail now token s))) = None"
    and "field ''alreadyVerified'' (snd (fst (server_verify_email now token s))) = None"
proof -
  have nv: "\<not> emailVerified d" if "find (\<lambda>d. verificationToken d = Some token) s = Some d" for d
  proof -
    from find_Some_mem[OF that] have "d \<in> set s" "verificationToken d = Some token" by simp_all
    with assms show ?thesis by (auto simp: tokensOnlyUnverified_def)
  qed
  show "field ''alreadyVerified'' (snd (fst (WaitlistController_verifyEmail now token s))) = None"
    using nv
    by (simp add: WaitlistController_verifyEmail_def WaitlistService_findByVerificationToken_def
        Waitlist_findByVerificationToken_def findOne_def field_def split: option.splits)
  show "field ''alreadyVerified'' (snd (fst (server_verify_email now token s))) = None"
    using nv
    by (simp add: server_verify_email_def findOne_def field_def split: option.splits)
qed

lemma reachable_never_alreadyVerified:
  "reachable cast s \<Longrightarrow>
   field ''alreadyVerified'' (snd (fst (WaitlistController_verifyEmail now token s))) = None"
  by (rule never_alreadyVerified(1)) (rule reachable_tokensOnlyUnverified)

end
